theory Spec2Isabelle
  imports Complex_Main
begin

section \<open>JavaScript values used by the managers\<close>

text \<open>
  A string that the managers only store, compare and print (an id, a name, a message of the
  engine) is a list of code units below 256 (\<open>char\<close>). A string whose content the code looks
  into (the memory limit, the decoded output of a command, the message that quotes the limit) is
  a list of UTF-16 code units, numbers below 65536; \<open>codeUnits\<close> embeds the first kind into the
  second. A JavaScript \<open>Map\<close> keeps its keys in insertion order: \<open>set\<close> on a new key appends,
  \<open>set\<close> on a present key replaces the value in place, \<open>delete\<close> removes the entry,
  \<open>values()\<close> lists the values in that order. It is modelled as an association list with these
  three operations.
\<close>

fun mapGet :: "('k \<times> 'v) list \<Rightarrow> 'k \<Rightarrow> 'v option" where
  "mapGet [] k = None"
| "mapGet ((k', v) # m) k = (if k' = k then Some v else mapGet m k)"

fun mapSet :: "('k \<times> 'v) list \<Rightarrow> 'k \<Rightarrow> 'v \<Rightarrow> ('k \<times> 'v) list" where
  "mapSet [] k v = [(k, v)]"
| "mapSet ((k', v') # m) k v = (if k' = k then (k, v) # m else (k', v') # mapSet m k v)"

definition mapDelete :: "('k \<times> 'v) list \<Rightarrow> 'k \<Rightarrow> ('k \<times> 'v) list" where
  "mapDelete m k = filter (\<lambda>e. fst e \<noteq> k) m"

definition mapKeys :: "('k \<times> 'v) list \<Rightarrow> 'k list" where
  "mapKeys m = map fst m"

definition mapValues :: "('k \<times> 'v) list \<Rightarrow> 'v list" where
  "mapValues m = map snd m"

definition codeUnits :: "string \<Rightarrow> nat list" where
  "codeUnits s = map of_char s"

text \<open>\<open>String.prototype.toLowerCase\<close> on code units below 256: the ASCII capitals and the
  Latin-1 capitals (192 to 222 without the multiplication sign 215) move up by 32.\<close>

definition toLowerChar :: "char \<Rightarrow> char" where
  "toLowerChar c =
     (let n = (of_char c :: nat)
      in if (65 \<le> n \<and> n \<le> 90) \<or> (192 \<le> n \<and> n \<le> 222 \<and> n \<noteq> 215)
         then char_of (n + 32) else c)"

definition toLowerCase :: "string \<Rightarrow> string" where
  "toLowerCase s = map toLowerChar s"

text \<open>\<open>String.prototype.includes\<close>: the pattern occurs as a contiguous block.\<close>

fun includesStr :: "string \<Rightarrow> string \<Rightarrow> bool" where
  "includesStr [] p = (p = [])"
| "includesStr (c # cs) p = (take (length p) (c # cs) = p \<or> includesStr cs p)"

subsection \<open>Numbers\<close>

text \<open>A JavaScript number is a double. The numbers that occur as a memory limit are the
  non-negative integers that a double holds, and \<open>Infinity\<close>.\<close>

datatype number = Num nat | PosInfinity

text \<open>The number value of a non-negative integer: the nearest double, a tie going to the even
  significand. A double has 53 significant bits; \<open>exponent n\<close> counts the low bits of \<open>n\<close> that
  do not fit, the quotient by \<open>2 ^ exponent n\<close> is rounded by the remainder, and a result from
  \<open>2 ^ 1024\<close> on is \<open>Infinity\<close>.\<close>

fun exponent :: "nat \<Rightarrow> nat" where
  "exponent n = (if n < 2 ^ 53 then 0 else Suc (exponent (n div 2)))"

declare exponent.simps [simp del]

definition toNumber :: "nat \<Rightarrow> number" where
  "toNumber n =
     (let e = exponent n; q = n div 2 ^ e; r = n mod 2 ^ e;
          m = (if 2 * r > 2 ^ e \<or> (2 * r = 2 ^ e \<and> odd q) then q + 1 else q)
      in if m * 2 ^ e \<ge> 2 ^ 1024 then PosInfinity else Num (m * 2 ^ e))"

text \<open>The product of a number and a positive integer factor: the number value of the exact
  product.\<close>

definition multiply :: "number \<Rightarrow> nat \<Rightarrow> number" where
  "multiply x f = (case x of Num a \<Rightarrow> toNumber (a * f) | PosInfinity \<Rightarrow> PosInfinity)"

text \<open>The regular expression class \<open>\d\<close>: the ten ASCII digits.\<close>

definition isDigit :: "nat \<Rightarrow> bool" where
  "isDigit u = (48 \<le> u \<and> u \<le> 57)"

definition digitValue :: "nat \<Rightarrow> nat" where
  "digitValue u = u - 48"

text \<open>\<open>parseInt(value, 10)\<close> on a string of decimal digits: the number value of the integer
  that the digits spell. (ECMAScript lets an implementation read the digits after the 20th
  significant one as 0; the model rounds the integer itself.)\<close>

definition parseInt10 :: "nat list \<Rightarrow> number" where
  "parseInt10 value = toNumber (foldl (\<lambda>acc u. 10 * acc + digitValue u) 0 value)"

subsection \<open>Decoding and trimming\<close>

text \<open>\<open>Buffer.prototype.toString()\<close> decodes the bytes of a chunk as UTF-8. The decoder reads
  a lead byte (\<open>leadByte\<close>: what it emits at once, and the code point so far, the number of
  continuation bytes needed and the range allowed for the next byte) and then the continuation
  bytes. A byte that cannot start or continue a sequence ends the sequence with U+FFFD and is
  read again as a lead byte; a sequence cut off by the end of the chunk gives one U+FFFD. A byte
  order mark is kept.\<close>

definition leadByte :: "nat \<Rightarrow> nat list \<times> (nat \<times> nat \<times> nat \<times> nat)" where
  "leadByte b =
     (if b < 0x80 then ([b], (0, 0, 0x80, 0xBF))
      else if 0xC2 \<le> b \<and> b \<le> 0xDF then ([], (b - 0xC0, 1, 0x80, 0xBF))
      else if 0xE0 \<le> b \<and> b \<le> 0xEF
        then ([], (b - 0xE0, 2, if b = 0xE0 then 0xA0 else 0x80, if b = 0xED then 0x9F else 0xBF))
      else if 0xF0 \<le> b \<and> b \<le> 0xF4
        then ([], (b - 0xF0, 3, if b = 0xF0 then 0x90 else 0x80, if b = 0xF4 then 0x8F else 0xBF))
      else ([0xFFFD], (0, 0, 0x80, 0xBF)))"

fun utf8Decode :: "nat \<times> nat \<times> nat \<times> nat \<Rightarrow> nat list \<Rightarrow> nat list" where
  "utf8Decode (cp, needed, lower, upper) [] = (if needed = 0 then [] else [0xFFFD])"
| "utf8Decode (cp, needed, lower, upper) (b # bs) =
     (if needed = 0 then fst (leadByte b) @ utf8Decode (snd (leadByte b)) bs
      else if lower \<le> b \<and> b \<le> upper then
        (if needed = 1 then (cp * 64 + (b - 0x80)) # utf8Decode (0, 0, 0x80, 0xBF) bs
         else utf8Decode (cp * 64 + (b - 0x80), needed - 1, 0x80, 0xBF) bs)
      else 0xFFFD # fst (leadByte b) @ utf8Decode (snd (leadByte b)) bs)"

text \<open>The code units of a code point: itself, or a surrogate pair from U+10000 on.\<close>

definition utf16 :: "nat \<Rightarrow> nat list" where
  "utf16 cp =
     (if cp < 0x10000 then [cp]
      else [0xD800 + (cp - 0x10000) div 0x400, 0xDC00 + (cp - 0x10000) mod 0x400])"

definition toString :: "nat list \<Rightarrow> nat list" where
  "toString chunk = concat (map utf16 (utf8Decode (0, 0, 0x80, 0xBF) chunk))"

text \<open>\<open>String.prototype.trim\<close> removes white space and line terminators from both ends. White
  space is TAB, VT, FF, U+FEFF and the space separators of Unicode (\<open>isSpaceSeparator\<close>); the
  line terminators are LF, CR, U+2028 and U+2029.\<close>

definition isSpaceSeparator :: "nat \<Rightarrow> bool" where
  "isSpaceSeparator u =
     (u = 0x20 \<or> u = 0xA0 \<or> u = 0x1680 \<or> (0x2000 \<le> u \<and> u \<le> 0x200A)
      \<or> u = 0x202F \<or> u = 0x205F \<or> u = 0x3000)"

definition isWhiteSpace :: "nat \<Rightarrow> bool" where
  "isWhiteSpace u =
     (u = 0x9 \<or> u = 0xB \<or> u = 0xC \<or> u = 0xFEFF \<or> isSpaceSeparator u
      \<or> u = 0xA \<or> u = 0xD \<or> u = 0x2028 \<or> u = 0x2029)"

definition trim :: "nat list \<Rightarrow> nat list" where
  "trim s = rev (dropWhile isWhiteSpace (rev (dropWhile isWhiteSpace s)))"

text \<open>White space in the words of the specification, as the list of its code units: the
  controls TAB to CR, the space, the no-break space, the spaces U+1680, U+2000 to U+200A,
  U+202F, U+205F and U+3000, the separators U+2028 and U+2029, and U+FEFF.\<close>

definition whiteSpaceUnits :: "nat list" where
  "whiteSpaceUnits =
     [0x0009, 0x000A, 0x000B, 0x000C, 0x000D, 0x0020, 0x00A0, 0x1680,
      0x2000, 0x2001, 0x2002, 0x2003, 0x2004, 0x2005, 0x2006, 0x2007, 0x2008, 0x2009, 0x200A,
      0x2028, 0x2029, 0x202F, 0x205F, 0x3000, 0xFEFF]"

section \<open>The container sandbox manager (sandbox-manager.ts)\<close>

datatype SandboxStatus = CREATING | RUNNING | PAUSED | STOPPED | ERROR

fun statusString :: "SandboxStatus \<Rightarrow> string" where
  "statusString CREATING = ''creating''"
| "statusString RUNNING = ''running''"
| "statusString PAUSED = ''paused''"
| "statusString STOPPED = ''stopped''"
| "statusString ERROR = ''error''"

text \<open>\<open>SandboxConfig\<close>: every property is optional (\<open>None\<close> is an absent property). Only the
  properties that \<open>SandboxManager\<close> reads are kept. \<open>cpuLimit\<close> counts whole cores and \<open>timeout\<close>
  milliseconds.\<close>

record SandboxConfig =
  cfg_image :: "string option"
  cfg_memoryLimit :: "nat list option"
  cfg_cpuLimit :: "nat option"
  cfg_timeout :: "nat option"
  cfg_autoRemove :: "bool option"
  cfg_env :: "(string \<times> string) list option"
  cfg_workDir :: "string option"

record SandboxInfo =
  sb_id :: string
  sb_name :: string
  sb_status :: SandboxStatus
  sb_containerId :: "string option"
  sb_createdAt :: nat
  sb_config :: SandboxConfig

record ExecuteResult =
  stdout :: "nat list"
  stderr :: "nat list"
  exitCode :: int

record SandboxStats =
  cpuUsage :: real
  memoryUsage :: nat
  networkRx :: nat
  networkTx :: nat

subsection \<open>The container engine, as the manager sees it\<close>

text \<open>The object handed to \<open>docker.createContainer\<close>.\<close>

record CreateOptions =
  co_name :: string
  co_Image :: string
  co_Cmd :: "string list"
  co_Tty :: bool
  co_OpenStdin :: bool
  co_Memory :: number
  co_NanoCpus :: nat
  co_AutoRemove :: "bool option"
  co_NetworkMode :: string
  co_Env :: "string list"
  co_WorkingDir :: string

text \<open>Every request the manager sends to the engine, in the order sent.\<close>

datatype DockerCall =
    CreateContainer CreateOptions
  | ContainerStart string
  | ContainerExec string "string list" bool bool
  | ExecStart bool
  | ExecInspect
  | ContainerPause string
  | ContainerUnpause string
  | ContainerStop string nat
  | ContainerRemove string bool
  | ContainerStats string bool

text \<open>How the stream of \<open>exec.start\<close> finishes: with the event \<open>end\<close> or with the event
  \<open>error\<close>.\<close>

datatype StreamEnding = StreamEnd | StreamError string

record ExecStream =
  es_chunks :: "nat list list"
  es_ending :: StreamEnding

text \<open>The counters of \<open>container.stats\<close> that the manager reads; an absent or zero counter
  is \<open>0\<close> (the source reads them with \<open>|| 0\<close>, \<open>online_cpus\<close> with \<open>|| 1\<close>).\<close>

record RawStats =
  rs_cpu_total :: int
  rs_precpu_total :: int
  rs_system :: int
  rs_presystem :: int
  rs_online_cpus :: nat
  rs_memory_usage :: nat
  rs_rx_bytes :: nat
  rs_tx_bytes :: nat

text \<open>The engine is a parameter. Each answer may depend on all earlier requests (the first
  argument), so an engine with a state of its own is covered. A rejected request answers with
  the message of the error (\<open>Some msg\<close> or \<open>Inl msg\<close>).\<close>

record Docker =
  d_createContainer :: "DockerCall list \<Rightarrow> CreateOptions \<Rightarrow> string + string"
  d_start :: "DockerCall list \<Rightarrow> string \<Rightarrow> string option"
  d_exec :: "DockerCall list \<Rightarrow> string \<Rightarrow> string list \<Rightarrow> string option"
  d_execStart :: "DockerCall list \<Rightarrow> string + ExecStream"
  d_execInspect :: "DockerCall list \<Rightarrow> string + int option"
  d_pause :: "DockerCall list \<Rightarrow> string \<Rightarrow> string option"
  d_unpause :: "DockerCall list \<Rightarrow> string \<Rightarrow> string option"
  d_stop :: "DockerCall list \<Rightarrow> string \<Rightarrow> string option"
  d_remove :: "DockerCall list \<Rightarrow> string \<Rightarrow> string option"
  d_stats :: "DockerCall list \<Rightarrow> string \<Rightarrow> string + RawStats"

subsection \<open>The state of a SandboxManager\<close>

text \<open>
  \<open>sandboxes\<close> is the registry (\<open>Map<string, SandboxInfo>\<close>), \<open>calls\<close> the requests sent to the
  engine so far, \<open>timers\<close> the pending \<open>setTimeout\<close> callbacks (due time and sandbox id, every
  callback being \<open>cleanupSandbox(id)\<close>), \<open>clock\<close> the value of \<open>Date.now()\<close> in milliseconds.
  Every operation runs as one step: no other operation interleaves at its \<open>await\<close>s, and no
  time passes inside it; the callbacks in \<open>timers\<close> are recorded and not run. Event listeners and the console are not modelled. An operation returns
  the message of the error it throws (\<open>Inl\<close>) or its value (\<open>Inr\<close>), and the next state.
\<close>

record SandboxManager =
  sandboxes :: "(string \<times> SandboxInfo) list"
  calls :: "DockerCall list"
  timers :: "(nat \<times> string) list"
  clock :: nat

definition sent :: "DockerCall \<Rightarrow> SandboxManager \<Rightarrow> SandboxManager" where
  "sent c st = st\<lparr>calls := calls st @ [c]\<rparr>"

text \<open>\<open>docker.getContainer(sandbox.containerId!)\<close> builds the request path from the id; an
  absent id is spelled \<open>undefined\<close> there.\<close>

definition getContainer :: "string option \<Rightarrow> string" where
  "getContainer cid = (case cid of Some c \<Rightarrow> c | None \<Rightarrow> ''undefined'')"

subsection \<open>parseMemoryLimit\<close>

text \<open>The table \<open>units\<close>, keyed by the code unit of the letter: b, k, m, g.\<close>

definition units :: "nat \<Rightarrow> nat option" where
  "units u =
     (if u = 98 then Some 1
      else if u = 107 then Some 1024
      else if u = 109 then Some (1024 ^ 2)
      else if u = 103 then Some (1024 ^ 3)
      else None)"

text \<open>\<open>toLowerCase\<close> as far as the pattern can see it. \<open>toLowerCase\<close> turns the ASCII capitals
  into the small letters and U+212A KELVIN SIGN into k; every other code unit it leaves alone
  or turns into code units that are neither a digit nor one of b, k, m, g (so is the one
  lower-case form that is longer than its capital, of U+0130, which ends in U+0307). Such a unit
  keeps its place here; the pattern refuses it either way.\<close>

definition lowerCaseUnit :: "nat \<Rightarrow> nat" where
  "lowerCaseUnit u = (if 65 \<le> u \<and> u \<le> 90 then u + 32 else if u = 0x212A then 107 else u)"

text \<open>\<open>limit.toLowerCase().match(/^(\d+)([bkmg])$/)\<close>: the longest run of digits at the start
  is group 1 (the unit letter is no digit, so no shorter run can match), and exactly one unit
  letter is left to the end of the string.\<close>

definition matchMemoryLimit :: "nat list \<Rightarrow> (nat list \<times> nat) option" where
  "matchMemoryLimit limit =
     (let lower = map lowerCaseUnit limit;
          value = takeWhile isDigit lower; rest = dropWhile isDigit lower
      in case rest of
           [u] \<Rightarrow> if value \<noteq> [] \<and> u \<in> {98, 107, 109, 103} then Some (value, u) else None
         | _ \<Rightarrow> None)"

definition parseMemoryLimit :: "nat list \<Rightarrow> nat list + number" where
  "parseMemoryLimit limit =
     (case matchMemoryLimit limit of
        None \<Rightarrow> Inl (codeUnits ''Invalid memory limit format: '' @ limit)
      | Some (value, unit) \<Rightarrow>
          if value = [] then Inl (codeUnits ''Invalid memory limit format: '' @ limit)
          else (case units unit of
                  None \<Rightarrow> Inl (codeUnits ''Invalid memory unit: '' @ [unit])
                | Some factor \<Rightarrow> Inr (multiply (parseInt10 value) factor)))"

text \<open>The format in the words of the specification: an integer (decimal digits) followed by
  exactly one unit letter among b, k, m, g in either case; the integer that the digits spell;
  and the factor each letter stands for.\<close>

definition memoryLimitFormat :: "nat list \<Rightarrow> bool" where
  "memoryLimitFormat s =
     (s \<noteq> [] \<and> butlast s \<noteq> [] \<and> set (butlast s) \<subseteq> set (codeUnits ''0123456789'')
      \<and> last s \<in> set (codeUnits ''bkmgBKMG''))"

primrec littleEndian :: "nat list \<Rightarrow> nat" where
  "littleEndian [] = 0"
| "littleEndian (d # ds) = (d - 48) + 10 * littleEndian ds"

definition decimal :: "nat list \<Rightarrow> nat" where
  "decimal ds = littleEndian (rev ds)"

definition unitFactor :: "nat \<Rightarrow> nat" where
  "unitFactor u =
     (if u \<in> set (codeUnits ''bB'') then 1
      else if u \<in> set (codeUnits ''kK'') then 1024
      else if u \<in> set (codeUnits ''mM'') then 1024 * 1024
      else 1024 * 1024 * 1024)"

text \<open>What the code accepts besides: digits followed by U+212A KELVIN SIGN, which counts
  as k.\<close>

definition kelvinLimit :: "nat list \<Rightarrow> bool" where
  "kelvinLimit s =
     (s \<noteq> [] \<and> butlast s \<noteq> [] \<and> set (butlast s) \<subseteq> set (codeUnits ''0123456789'')
      \<and> last s = 0x212A)"

subsection \<open>createSandbox\<close>

text \<open>The spread \<open>{ image: 'node:20-alpine', memoryLimit: '512m', cpuLimit: 1, timeout: 300000,
  autoRemove: true, ...config }\<close>: a property of \<open>config\<close> replaces the default.\<close>

definition defaultConfig :: "SandboxConfig \<Rightarrow> SandboxConfig" where
  "defaultConfig config =
     \<lparr> cfg_image = Some (case cfg_image config of Some i \<Rightarrow> i | None \<Rightarrow> ''node:20-alpine''),
       cfg_memoryLimit =
         Some (case cfg_memoryLimit config of Some m \<Rightarrow> m | None \<Rightarrow> codeUnits ''512m''),
       cfg_cpuLimit = Some (case cfg_cpuLimit config of Some c \<Rightarrow> c | None \<Rightarrow> 1),
       cfg_timeout = Some (case cfg_timeout config of Some t \<Rightarrow> t | None \<Rightarrow> 300000),
       cfg_autoRemove = Some (case cfg_autoRemove config of Some a \<Rightarrow> a | None \<Rightarrow> True),
       cfg_env = cfg_env config,
       cfg_workDir = cfg_workDir config \<rparr>"

definition createOptions :: "string \<Rightarrow> SandboxConfig \<Rightarrow> number \<Rightarrow> CreateOptions" where
  "createOptions sandboxId dc memory =
     \<lparr> co_name = ''sandbox-'' @ sandboxId,
       co_Image = the (cfg_image dc),
       co_Cmd = [''/bin/sh''],
       co_Tty = True,
       co_OpenStdin = True,
       co_Memory = memory,
       co_NanoCpus = the (cfg_cpuLimit dc) * 10 ^ 9,
       co_AutoRemove = cfg_autoRemove dc,
       co_NetworkMode = ''bridge'',
       co_Env = (case cfg_env dc of Some e \<Rightarrow> map (\<lambda>(k, v). k @ ''='' @ v) e | None \<Rightarrow> []),
       co_WorkingDir =
         (case cfg_workDir dc of Some w \<Rightarrow> if w = [] then ''/workspace'' else w
          | None \<Rightarrow> ''/workspace'') \<rparr>"

text \<open>The \<open>catch\<close> block of \<open>createSandbox\<close>: the entry is stored again with status \<open>ERROR\<close>
  and the error is thrown on with a prefix. The message is a string of code units, since it
  may quote the memory limit.\<close>

definition createFailed ::
  "string \<Rightarrow> SandboxInfo \<Rightarrow> nat list \<Rightarrow> SandboxManager
     \<Rightarrow> (nat list + SandboxInfo) \<times> SandboxManager" where
  "createFailed sandboxId sandboxInfo msg st =
     (Inl (codeUnits ''Failed to create sandbox: '' @ msg),
      st\<lparr>sandboxes := mapSet (sandboxes st) sandboxId (sandboxInfo\<lparr>sb_status := ERROR\<rparr>)\<rparr>)"

text \<open>The delay that \<open>setTimeout\<close> of Node.js takes: a delay above \<open>2\<^sup>3\<^sup>1 - 1\<close> or below 1
  is set to 1 millisecond.\<close>

definition timerDelay :: "nat \<Rightarrow> nat" where
  "timerDelay t = (if t > 2147483647 \<or> t < 1 then 1 else t)"

text \<open>\<open>sandboxId\<close> is the value of \<open>generateId()\<close> (time and random digits), a parameter here.
  The timer is set only \<open>if (defaultConfig.timeout)\<close>, which a timeout of 0 does not pass.\<close>

definition createSandbox ::
  "Docker \<Rightarrow> string \<Rightarrow> string \<Rightarrow> SandboxConfig \<Rightarrow> SandboxManager
     \<Rightarrow> (nat list + SandboxInfo) \<times> SandboxManager" where
  "createSandbox drv sandboxId name config st =
     (let dc = defaultConfig config;
          sandboxInfo = \<lparr> sb_id = sandboxId, sb_name = name, sb_status = CREATING,
                          sb_containerId = None, sb_createdAt = clock st, sb_config = dc \<rparr>;
          st1 = st\<lparr>sandboxes := mapSet (sandboxes st) sandboxId sandboxInfo\<rparr>
      in case parseMemoryLimit (the (cfg_memoryLimit dc)) of
           Inl msg \<Rightarrow> createFailed sandboxId sandboxInfo msg st1
         | Inr memory \<Rightarrow>
             (let opts = createOptions sandboxId dc memory;
                  st2 = sent (CreateContainer opts) st1
              in case d_createContainer drv (calls st1) opts of
                   Inl msg \<Rightarrow> createFailed sandboxId sandboxInfo (codeUnits msg) st2
                 | Inr cid \<Rightarrow>
                     (let st3 = sent (ContainerStart cid) st2
                      in case d_start drv (calls st2) cid of
                           Some msg \<Rightarrow> createFailed sandboxId sandboxInfo (codeUnits msg) st3
                         | None \<Rightarrow>
                             (let running = sandboxInfo\<lparr>sb_containerId := Some cid,
                                                         sb_status := RUNNING\<rparr>;
                                  st4 = st3\<lparr>sandboxes := mapSet (sandboxes st3) sandboxId running\<rparr>;
                                  t = the (cfg_timeout dc)
                              in (Inr running,
                                  if t \<noteq> 0
                                  then st4\<lparr>timers := timers st4 @ [(clock st4 + timerDelay t, sandboxId)]\<rparr>
                                  else st4)))))"

subsection \<open>executeInSandbox\<close>

text \<open>The handler of the stream's \<open>data\<close> event: \<open>chunk[0]\<close> selects the accumulator and
  \<open>data.substring(8)\<close>, the decoded chunk without its first eight code units, is appended to
  it. An empty chunk has no \<open>chunk[0]\<close>.\<close>

definition onData :: "nat list \<times> nat list \<Rightarrow> nat list \<Rightarrow> nat list \<times> nat list" where
  "onData acc chunk =
     (let data = toString chunk
      in case chunk of
           [] \<Rightarrow> acc
         | b # _ \<Rightarrow>
             if b = 1 then (fst acc @ drop 8 data, snd acc)
             else if b = 2 then (fst acc, snd acc @ drop 8 data)
             else acc)"

definition demux :: "nat list list \<Rightarrow> nat list \<times> nat list" where
  "demux chunks = foldl onData ([], []) chunks"

definition executeInSandbox ::
  "Docker \<Rightarrow> string \<Rightarrow> string list \<Rightarrow> SandboxManager \<Rightarrow> (string + ExecuteResult) \<times> SandboxManager" where
  "executeInSandbox drv sandboxId command st =
     (case mapGet (sandboxes st) sandboxId of
        None \<Rightarrow> (Inl (''Sandbox '' @ sandboxId @ '' not found''), st)
      | Some sandbox \<Rightarrow>
          if sb_status sandbox \<noteq> RUNNING
          then (Inl (''Sandbox '' @ sandboxId @ '' is not running (status: ''
                      @ statusString (sb_status sandbox) @ '')''), st)
          else
            (let container = getContainer (sb_containerId sandbox);
                 st1 = sent (ContainerExec container command True True) st
             in case d_exec drv (calls st) container command of
                  Some msg \<Rightarrow> (Inl (''Failed to execute command: '' @ msg), st1)
                | None \<Rightarrow>
                    (let st2 = sent (ExecStart False) st1
                     in case d_execStart drv (calls st1) of
                          Inl msg \<Rightarrow> (Inl (''Failed to execute command: '' @ msg), st2)
                        | Inr stream \<Rightarrow>
                            (let out = demux (es_chunks stream)
                             in case es_ending stream of
                                  StreamError msg \<Rightarrow> (Inl msg, st2)
                                | StreamEnd \<Rightarrow>
                                    (let st3 = sent ExecInspect st2
                                     in case d_execInspect drv (calls st2) of
                                          Inl msg \<Rightarrow> (Inl msg, st3)
                                        | Inr code \<Rightarrow>
                                            (Inr \<lparr> stdout = trim (fst out),
                                                   stderr = trim (snd out),
                                                   exitCode = (case code of None \<Rightarrow> 0 | Some c \<Rightarrow> c) \<rparr>,
                                             st3))))))"

subsection \<open>pauseSandbox, resumeSandbox, cleanupSandbox\<close>

definition pauseSandbox ::
  "Docker \<Rightarrow> string \<Rightarrow> SandboxManager \<Rightarrow> (string + unit) \<times> SandboxManager" where
  "pauseSandbox drv sandboxId st =
     (case mapGet (sandboxes st) sandboxId of
        None \<Rightarrow> (Inl (''Sandbox '' @ sandboxId @ '' not found''), st)
      | Some sandbox \<Rightarrow>
          if sb_status sandbox \<noteq> RUNNING
          then (Inl (''Sandbox '' @ sandboxId @ '' is not running''), st)
          else
            (let container = getContainer (sb_containerId sandbox);
                 st1 = sent (ContainerPause container) st
             in case d_pause drv (calls st) container of
                  Some msg \<Rightarrow> (Inl (''Failed to pause sandbox: '' @ msg), st1)
                | None \<Rightarrow>
                    (Inr (),
                     st1\<lparr>sandboxes :=
                           mapSet (sandboxes st1) sandboxId (sandbox\<lparr>sb_status := PAUSED\<rparr>)\<rparr>)))"

definition resumeSandbox ::
  "Docker \<Rightarrow> string \<Rightarrow> SandboxManager \<Rightarrow> (string + unit) \<times> SandboxManager" where
  "resumeSandbox drv sandboxId st =
     (case mapGet (sandboxes st) sandboxId of
        None \<Rightarrow> (Inl (''Sandbox '' @ sandboxId @ '' not found''), st)
      | Some sandbox \<Rightarrow>
          if sb_status sandbox \<noteq> PAUSED
          then (Inl (''Sandbox '' @ sandboxId @ '' is not paused''), st)
          else
            (let container = getContainer (sb_containerId sandbox);
                 st1 = sent (ContainerUnpause container) st
             in case d_unpause drv (calls st) container of
                  Some msg \<Rightarrow> (Inl (''Failed to resume sandbox: '' @ msg), st1)
                | None \<Rightarrow>
                    (Inr (),
                     st1\<lparr>sandboxes :=
                           mapSet (sandboxes st1) sandboxId (sandbox\<lparr>sb_status := RUNNING\<rparr>)\<rparr>)))"

text \<open>The teardown inside \<open>cleanupSandbox\<close>, run when \<open>sandbox.containerId\<close> is truthy (present
  and not the empty string): \<open>stop\<close>, then \<open>remove\<close> unless \<open>config.autoRemove\<close> is true. Both
  requests sit in a \<open>try\<close> with an empty \<open>catch\<close>, so either answer of the engine goes on.\<close>

definition teardown :: "Docker \<Rightarrow> SandboxInfo \<Rightarrow> SandboxManager \<Rightarrow> SandboxManager" where
  "teardown drv sandbox st =
     (case sb_containerId sandbox of
        None \<Rightarrow> st
      | Some c \<Rightarrow>
          if c = [] then st
          else
            (let st1 = (case d_stop drv (calls st) c of
                          Some msg \<Rightarrow> sent (ContainerStop c 10) st
                        | None \<Rightarrow> sent (ContainerStop c 10) st)
             in if cfg_autoRemove (sb_config sandbox) \<noteq> Some True
                then (case d_remove drv (calls st1) c of
                        Some msg \<Rightarrow> sent (ContainerRemove c True) st1
                      | None \<Rightarrow> sent (ContainerRemove c True) st1)
                else st1))"

text \<open>\<open>sandbox.status = STOPPED\<close> is written to an object that leaves the registry in the next
  statement; the registry never holds an entry with that status.\<close>

definition cleanupSandbox ::
  "Docker \<Rightarrow> string \<Rightarrow> SandboxManager \<Rightarrow> (string + unit) \<times> SandboxManager" where
  "cleanupSandbox drv sandboxId st =
     (case mapGet (sandboxes st) sandboxId of
        None \<Rightarrow> (Inl (''Sandbox '' @ sandboxId @ '' not found''), st)
      | Some sandbox \<Rightarrow>
          (let st1 = teardown drv sandbox st
           in (Inr (), st1\<lparr>sandboxes := mapDelete (sandboxes st1) sandboxId\<rparr>)))"

definition getSandbox :: "SandboxManager \<Rightarrow> string \<Rightarrow> SandboxInfo option" where
  "getSandbox st sandboxId = mapGet (sandboxes st) sandboxId"

definition listSandboxes :: "SandboxManager \<Rightarrow> SandboxInfo list" where
  "listSandboxes st = mapValues (sandboxes st)"

subsection \<open>getSandboxStats\<close>

definition calculateCpuPercent :: "RawStats \<Rightarrow> real" where
  "calculateCpuPercent stats =
     (let cpuDelta = rs_cpu_total stats - rs_precpu_total stats;
          systemDelta = rs_system stats - rs_presystem stats;
          numberCpus = (if rs_online_cpus stats = 0 then 1 else rs_online_cpus stats)
      in if systemDelta > 0 \<and> cpuDelta > 0
         then (real_of_int cpuDelta / real_of_int systemDelta) * real numberCpus * 100
         else 0)"

definition getSandboxStats ::
  "Docker \<Rightarrow> string \<Rightarrow> SandboxManager \<Rightarrow> (string + SandboxStats) \<times> SandboxManager" where
  "getSandboxStats drv sandboxId st =
     (case mapGet (sandboxes st) sandboxId of
        None \<Rightarrow> (Inl (''Sandbox '' @ sandboxId @ '' not found or not running''), st)
      | Some sandbox \<Rightarrow>
          (case sb_containerId sandbox of
             None \<Rightarrow> (Inl (''Sandbox '' @ sandboxId @ '' not found or not running''), st)
           | Some c \<Rightarrow>
               if c = [] then (Inl (''Sandbox '' @ sandboxId @ '' not found or not running''), st)
               else
                 (let st1 = sent (ContainerStats c False) st
                  in case d_stats drv (calls st) c of
                       Inl msg \<Rightarrow> (Inl (''Failed to get sandbox stats: '' @ msg), st1)
                     | Inr stats \<Rightarrow>
                         (Inr \<lparr> cpuUsage = calculateCpuPercent stats,
                                memoryUsage = rs_memory_usage stats,
                                networkRx = rs_rx_bytes stats,
                                networkTx = rs_tx_bytes stats \<rparr>,
                          st1))))"

subsection \<open>The auto-cleanup timer and the cleanup scheduler\<close>


subsection \<open>The multiplexed stream of the engine\<close>

text \<open>The frame layout of the engine's attach protocol, as the specification words it: the
  first byte is the tag of the stream (1 standard output, 2 standard error), the next seven
  bytes are reserved and length header (three zero bytes and the payload length as four bytes,
  most significant first), the remainder is the payload. A logical write is a tag with its
  payload; the stream is the frames of all writes, one after the other.\<close>

definition be32 :: "nat \<Rightarrow> nat list" where
  "be32 n = [n div 16777216 mod 256, n div 65536 mod 256, n div 256 mod 256, n mod 256]"

definition frame :: "nat \<times> nat list \<Rightarrow> nat list" where
  "frame w = [fst w, 0, 0, 0] @ be32 (length (snd w)) @ snd w"

definition multiplexed :: "(nat \<times> nat list) list \<Rightarrow> nat list" where
  "multiplexed writes = concat (map frame writes)"

text \<open>What was written to the stream with tag \<open>t\<close>, in order, decoded as one text.\<close>

definition written :: "nat \<Rightarrow> (nat \<times> nat list) list \<Rightarrow> nat list" where
  "written t writes = toString (concat (map snd (filter (\<lambda>w. fst w = t) writes)))"

section \<open>The browser sandbox manager (browser-sandbox-manager.ts)\<close>

datatype BrowserErrorCode =
    BROWSER_NOT_INITIALIZED
  | CONTEXT_NOT_FOUND
  | PAGE_NOT_FOUND
  | NAVIGATION_FAILED
  | NAVIGATION_TIMEOUT
  | SCREENSHOT_FAILED
  | PDF_GENERATION_FAILED
  | JAVASCRIPT_EXECUTION_FAILED
  | BROWSER_LAUNCH_FAILED
  | CONTEXT_CREATION_FAILED

text \<open>\<open>BrowserError\<close>: the message, the code and the message of the original error. The
  \<open>details\<close> object only repeats the arguments of the call.\<close>

record BrowserError =
  be_message :: string
  be_code :: BrowserErrorCode
  be_originalError :: "string option"

datatype WaitUntil = Load | DomContentLoaded | NetworkIdle

record NavigateOptions =
  no_waitUntil :: "WaitUntil option"
  no_timeout :: "nat option"
  no_referer :: "string option"

datatype ContextStatus = Active | Closed

text \<open>\<open>ManagedContext\<close>. Handles of the engine (the browser context, a page) are numbers. Of
  \<open>config\<close> the operations below read \<open>timeout\<close> only.\<close>

record ManagedContext =
  mc_id :: string
  mc_browserType :: string
  mc_context :: nat
  mc_pages :: "(string \<times> nat) list"
  mc_createdAt :: nat
  mc_lastAccessedAt :: nat
  mc_config_timeout :: "nat option"
  mc_status :: ContextStatus

record JavaScriptResult =
  js_success :: bool
  js_result :: "string option"
  js_error :: "string option"

datatype PageCall =
    NewPage nat
  | SetExtraHTTPHeaders nat string
  | Goto nat string WaitUntil nat
  | Content nat
  | Evaluate nat string
  | PageClose nat

text \<open>The browser engine is a parameter, as the container engine is: an answer may depend on
  the earlier requests, and a rejection carries the message of its error. The value of
  \<open>page.evaluate\<close> is kept as its text.\<close>

record Playwright =
  p_newPage :: "PageCall list \<Rightarrow> nat \<Rightarrow> string + nat"
  p_setExtraHTTPHeaders :: "PageCall list \<Rightarrow> nat \<Rightarrow> string \<Rightarrow> string option"
  p_goto :: "PageCall list \<Rightarrow> nat \<Rightarrow> string \<Rightarrow> WaitUntil \<Rightarrow> nat \<Rightarrow> string option"
  p_content :: "PageCall list \<Rightarrow> nat \<Rightarrow> string + string"
  p_evaluate :: "PageCall list \<Rightarrow> nat \<Rightarrow> string \<Rightarrow> string + string"
  p_close :: "PageCall list \<Rightarrow> nat \<Rightarrow> string option"

record BrowserSandboxManager =
  contexts :: "(string \<times> ManagedContext) list"
  pageCalls :: "PageCall list"
  now :: nat

definition asked :: "PageCall \<Rightarrow> BrowserSandboxManager \<Rightarrow> BrowserSandboxManager" where
  "asked c st = st\<lparr>pageCalls := pageCalls st @ [c]\<rparr>"

text \<open>\<open>managedContext.lastAccessedAt = new Date()\<close> writes to the object held by the registry.\<close>

definition touch :: "string \<Rightarrow> BrowserSandboxManager \<Rightarrow> BrowserSandboxManager" where
  "touch contextId st =
     (case mapGet (contexts st) contextId of
        None \<Rightarrow> st
      | Some mc \<Rightarrow>
          st\<lparr>contexts := mapSet (contexts st) contextId (mc\<lparr>mc_lastAccessedAt := now st\<rparr>)\<rparr>)"

definition getManagedContext :: "BrowserSandboxManager \<Rightarrow> string \<Rightarrow> BrowserError + ManagedContext" where
  "getManagedContext st contextId =
     (case mapGet (contexts st) contextId of
        None \<Rightarrow> Inl \<lparr> be_message = ''Context not found: '' @ contextId,
                       be_code = CONTEXT_NOT_FOUND, be_originalError = None \<rparr>
      | Some managedContext \<Rightarrow>
          if mc_status managedContext \<noteq> Active
          then Inl \<lparr> be_message = ''Context is not active: '' @ contextId,
                     be_code = CONTEXT_NOT_FOUND, be_originalError = None \<rparr>
          else Inr managedContext)"

text \<open>\<open>!pageId\<close> holds for an absent page id and for the empty string.\<close>

definition noPageId :: "string option \<Rightarrow> bool" where
  "noPageId pageId = (case pageId of None \<Rightarrow> True | Some p \<Rightarrow> p = [])"

definition getPage :: "BrowserSandboxManager \<Rightarrow> string \<Rightarrow> string option \<Rightarrow> BrowserError + nat" where
  "getPage st contextId pageId =
     (case getManagedContext st contextId of
        Inl e \<Rightarrow> Inl e
      | Inr managedContext \<Rightarrow>
          if noPageId pageId
          then (let pages = mapValues (mc_pages managedContext)
                in if length pages = 0
                   then Inl \<lparr> be_message = ''No pages found in context: '' @ contextId,
                              be_code = PAGE_NOT_FOUND, be_originalError = None \<rparr>
                   else Inr (pages ! (length pages - 1)))
          else (case mapGet (mc_pages managedContext) (the pageId) of
                  None \<Rightarrow> Inl \<lparr> be_message = ''Page not found: '' @ the pageId,
                                 be_code = PAGE_NOT_FOUND, be_originalError = None \<rparr>
                | Some page \<Rightarrow> Inr page))"

text \<open>The \<open>catch\<close> block of \<open>navigate\<close>: a message that contains \<open>timeout\<close> in any case gives
  \<open>NAVIGATION_TIMEOUT\<close>.\<close>

definition navigateFailed :: "string \<Rightarrow> string \<Rightarrow> BrowserError" where
  "navigateFailed url msg =
     \<lparr> be_message = ''Failed to navigate to '' @ url,
       be_code = (if includesStr (toLowerCase msg) ''timeout'' then NAVIGATION_TIMEOUT
                  else NAVIGATION_FAILED),
       be_originalError = Some msg \<rparr>"

text \<open>\<open>options.timeout || managedContext.config.timeout || DEFAULT_CONFIG.timeout\<close>: an absent
  or zero timeout falls through to the next one, the last being 30000.\<close>

definition navigationTimeout :: "NavigateOptions \<Rightarrow> ManagedContext \<Rightarrow> nat" where
  "navigationTimeout options managedContext =
     (let configured = (case mc_config_timeout managedContext of
                          Some c \<Rightarrow> if c \<noteq> 0 then c else 30000
                        | None \<Rightarrow> 30000)
      in case no_timeout options of
           Some t \<Rightarrow> if t \<noteq> 0 then t else configured
         | None \<Rightarrow> configured)"

text \<open>\<open>pageId\<close> is the value of \<open>generatePageId()\<close>, a parameter here.\<close>

definition navigate ::
  "Playwright \<Rightarrow> string \<Rightarrow> string \<Rightarrow> NavigateOptions \<Rightarrow> string \<Rightarrow> BrowserSandboxManager
     \<Rightarrow> (BrowserError + string) \<times> BrowserSandboxManager" where
  "navigate drv contextId url options pageId st =
     (case getManagedContext st contextId of
        Inl e \<Rightarrow> (Inl e, st)
      | Inr managedContext \<Rightarrow>
          (let st1 = asked (NewPage (mc_context managedContext)) st
           in case p_newPage drv (pageCalls st) (mc_context managedContext) of
                Inl msg \<Rightarrow> (Inl (navigateFailed url msg), st1)
              | Inr page \<Rightarrow>
                  (let referer = (case no_referer options of None \<Rightarrow> [] | Some r \<Rightarrow> r);
                       st2 = (if referer \<noteq> [] then asked (SetExtraHTTPHeaders page referer) st1
                              else st1)
                   in case (if referer \<noteq> [] then p_setExtraHTTPHeaders drv (pageCalls st1) page referer
                            else None) of
                        Some msg \<Rightarrow> (Inl (navigateFailed url msg), st2)
                      | None \<Rightarrow>
                          (let st3 = touch contextId st2;
                               waitUntil = (case no_waitUntil options of None \<Rightarrow> Load | Some w \<Rightarrow> w);
                               timeout = navigationTimeout options managedContext;
                               st4 = asked (Goto page url waitUntil timeout) st3
                           in case p_goto drv (pageCalls st3) page url waitUntil timeout of
                                Some msg \<Rightarrow> (Inl (navigateFailed url msg), st4)
                              | None \<Rightarrow>
                                  (case mapGet (contexts st4) contextId of
                                     None \<Rightarrow> (Inr pageId, st4)
                                   | Some mc \<Rightarrow>
                                       (Inr pageId,
                                        st4\<lparr>contexts := mapSet (contexts st4) contextId
                                               (mc\<lparr>mc_pages := mapSet (mc_pages mc) pageId page\<rparr>)\<rparr>))))))"

definition getPageContent ::
  "Playwright \<Rightarrow> string \<Rightarrow> string option \<Rightarrow> BrowserSandboxManager
     \<Rightarrow> (BrowserError + string) \<times> BrowserSandboxManager" where
  "getPageContent drv contextId pageId st =
     (case getPage st contextId pageId of
        Inl e \<Rightarrow> (Inl e, st)
      | Inr page \<Rightarrow>
          (case getManagedContext st contextId of
             Inl e \<Rightarrow> (Inl e, st)
           | Inr managedContext \<Rightarrow>
               (let st1 = touch contextId st;
                    st2 = asked (Content page) st1
                in case p_content drv (pageCalls st1) page of
                     Inl msg \<Rightarrow> (Inl \<lparr> be_message = ''Failed to get page content'',
                                       be_code = PAGE_NOT_FOUND, be_originalError = Some msg \<rparr>, st2)
                   | Inr content \<Rightarrow> (Inr content, st2))))"

definition executeJavaScript ::
  "Playwright \<Rightarrow> string \<Rightarrow> string \<Rightarrow> string option \<Rightarrow> BrowserSandboxManager
     \<Rightarrow> (BrowserError + JavaScriptResult) \<times> BrowserSandboxManager" where
  "executeJavaScript drv contextId script pageId st =
     (case getPage st contextId pageId of
        Inl e \<Rightarrow> (Inl e, st)
      | Inr page \<Rightarrow>
          (case getManagedContext st contextId of
             Inl e \<Rightarrow> (Inl e, st)
           | Inr managedContext \<Rightarrow>
               (let st1 = touch contextId st;
                    st2 = asked (Evaluate page script) st1
                in case p_evaluate drv (pageCalls st1) page script of
                     Inl msg \<Rightarrow> (Inr \<lparr> js_success = False, js_result = None,
                                       js_error = Some msg \<rparr>, st2)
                   | Inr result \<Rightarrow> (Inr \<lparr> js_success = True, js_result = Some result,
                                          js_error = None \<rparr>, st2))))"

definition closePage ::
  "Playwright \<Rightarrow> string \<Rightarrow> string \<Rightarrow> BrowserSandboxManager
     \<Rightarrow> (BrowserError + unit) \<times> BrowserSandboxManager" where
  "closePage drv contextId pageId st =
     (case getManagedContext st contextId of
        Inl e \<Rightarrow> (Inl e, st)
      | Inr managedContext \<Rightarrow>
          (case mapGet (mc_pages managedContext) pageId of
             None \<Rightarrow> (Inl \<lparr> be_message = ''Page not found: '' @ pageId,
                            be_code = PAGE_NOT_FOUND, be_originalError = None \<rparr>, st)
           | Some page \<Rightarrow>
               (let st1 = asked (PageClose page) st
                in case p_close drv (pageCalls st) page of
                     Some msg \<Rightarrow> (Inl \<lparr> be_message = ''Failed to close page: '' @ pageId,
                                        be_code = PAGE_NOT_FOUND, be_originalError = Some msg \<rparr>, st1)
                   | None \<Rightarrow>
                       (Inr (),
                        st1\<lparr>contexts := mapSet (contexts st1) contextId
                               (managedContext\<lparr>mc_pages := mapDelete (mc_pages managedContext) pageId\<rparr>)\<rparr>))))"

text \<open>The pages of every context, as \<open>listPages\<close> and default-page selection see them.\<close>

definition pageMaps :: "BrowserSandboxManager \<Rightarrow> (string \<times> (string \<times> nat) list) list" where
  "pageMaps st = map (\<lambda>(i, mc). (i, mc_pages mc)) (contexts st)"

section \<open>Engines and states for concrete runs\<close>

text \<open>An engine that accepts every request: \<open>createContainer\<close> answers with \<open>created\<close>, the
  stream of an exec is \<open>stream\<close> and its exit code 0, all counters are zero.\<close>

definition engine :: "string + string \<Rightarrow> ExecStream \<Rightarrow> Docker" where
  "engine created stream =
     \<lparr> d_createContainer = (\<lambda>h opts. created),
       d_start = (\<lambda>h c. None),
       d_exec = (\<lambda>h c cmd. None),
       d_execStart = (\<lambda>h. Inr stream),
       d_execInspect = (\<lambda>h. Inr (Some 0)),
       d_pause = (\<lambda>h c. None),
       d_unpause = (\<lambda>h c. None),
       d_stop = (\<lambda>h c. None),
       d_remove = (\<lambda>h c. None),
       d_stats = (\<lambda>h c. Inr \<lparr> rs_cpu_total = 0, rs_precpu_total = 0, rs_system = 0,
                                 rs_presystem = 0, rs_online_cpus = 0, rs_memory_usage = 0,
                                 rs_rx_bytes = 0, rs_tx_bytes = 0 \<rparr>) \<rparr>"

definition noStream :: ExecStream where
  "noStream = \<lparr> es_chunks = [], es_ending = StreamEnd \<rparr>"

definition noConfig :: SandboxConfig where
  "noConfig = \<lparr> cfg_image = None, cfg_memoryLimit = None, cfg_cpuLimit = None,
                 cfg_timeout = None, cfg_autoRemove = None, cfg_env = None, cfg_workDir = None \<rparr>"

definition newManager :: SandboxManager where
  "newManager = \<lparr> sandboxes = [], calls = [], timers = [], clock = 0 \<rparr>"


text \<open>The bytes of an ASCII text, and a manager with one running sandbox \<open>sb_1\<close>.\<close>

definition bytes :: "string \<Rightarrow> nat list" where
  "bytes s = map of_char s"

definition runningManager :: SandboxManager where
  "runningManager =
     snd (createSandbox (engine (Inr ''c1'') noStream) ''sb_1'' ''demo'' noConfig newManager)"


text \<open>The stream of \<open>sh -c 'echo STDOUT && >&2 echo STDERR'\<close>, each write in a chunk of its own.\<close>

definition echoWrites :: "(nat \<times> nat list) list" where
  "echoWrites = [(1, bytes (''STDOUT'' @ [CHR 0x0A])), (2, bytes (''STDERR'' @ [CHR 0x0A]))]"

definition echoStream :: ExecStream where
  "echoStream = \<lparr> es_chunks = map frame echoWrites, es_ending = StreamEnd \<rparr>"

text \<open>The stream of a command that writes U+FEFF, a space, \<open>caf\<close> and U+00E9, U+3000 and a
  newline to standard output, encoded in UTF-8, as one frame in one chunk.\<close>

definition cafeStream :: ExecStream where
  "cafeStream =
     \<lparr> es_chunks = [frame (1, [0xEF, 0xBB, 0xBF, 0x20, 0x63, 0x61, 0x66, 0xC3, 0xA9,
                                0xE3, 0x80, 0x80, 0x0A])],
       es_ending = StreamEnd \<rparr>"

section \<open>Browser engines and states for concrete runs\<close>

text \<open>A browser engine that hands out the page handles 1, 2, 3, ... (one more than the
  number of earlier requests), lets every navigation succeed except those to a URL in
  \<open>unreachable\<close>, answers \<open>content\<close> with the text \<open>page\<close> and the handle's digit, and fails
  every evaluation of the script \<open>throw\<close>.\<close>

definition browser :: "string list \<Rightarrow> Playwright" where
  "browser unreachable =
     \<lparr> p_newPage = (\<lambda>h c. Inr (Suc (length h))),
       p_setExtraHTTPHeaders = (\<lambda>h p r. None),
       p_goto = (\<lambda>h p url w t. if url \<in> set unreachable
                                then Some ''page.goto: Timeout 50ms exceeded.'' else None),
       p_content = (\<lambda>h p. Inr (''page'' @ [char_of (48 + p)])),
       p_evaluate = (\<lambda>h p script. if script = ''throw'' then Inl ''boom'' else Inr ''1''),
       p_close = (\<lambda>h p. None) \<rparr>"

definition noOptions :: NavigateOptions where
  "noOptions = \<lparr> no_waitUntil = None, no_timeout = None, no_referer = None \<rparr>"

text \<open>A manager with one active context \<open>ctx_1\<close> without pages.\<close>

definition oneContext :: BrowserSandboxManager where
  "oneContext =
     \<lparr> contexts = [(''ctx_1'',
          \<lparr> mc_id = ''ctx_1'', mc_browserType = ''chromium'', mc_context = 0, mc_pages = [],
            mc_createdAt = 0, mc_lastAccessedAt = 0, mc_config_timeout = None,
            mc_status = Active \<rparr>)],
       pageCalls = [], now = 0 \<rparr>"

text \<open>The same manager after one navigation, and after a second one.\<close>

definition onePage :: BrowserSandboxManager where
  "onePage = snd (navigate (browser []) ''ctx_1'' ''https://a.example'' noOptions ''page_1'' oneContext)"

definition twoPages :: BrowserSandboxManager where
  "twoPages = snd (navigate (browser []) ''ctx_1'' ''https://b.example'' noOptions ''page_2'' onePage)"

section \<open>Proofs\<close>

subsection \<open>Maps in insertion order\<close>

lemma mapGet_mapSet: "mapGet (mapSet m k v) k' = (if k' = k then Some v else mapGet m k')"
  by (induction m) auto

lemma mapGet_mapDelete: "mapGet (mapDelete m k) k' = (if k' = k then None else mapGet m k')"
  by (induction m) (auto simp: mapDelete_def)

lemma mapGet_None_iff: "mapGet m k = None \<longleftrightarrow> k \<notin> set (mapKeys m)"
  by (induction m) (auto simp: mapKeys_def split: if_splits)

lemma mapSet_fresh: "k \<notin> set (mapKeys m) \<Longrightarrow> mapSet m k v = m @ [(k, v)]"
  by (induction m) (auto simp: mapKeys_def)

subsection \<open>Characters\<close>

lemma char_code_iff: "(c = d) = ((of_char c :: nat) = of_char d)"
  by simp

lemma char_of_code_iff: "(char_of (n::nat) = c) = (n mod 256 = of_char c)"
  by (subst char_code_iff) simp

lemma codeUnits_append: "codeUnits (s @ t) = codeUnits s @ codeUnits t"
  by (simp add: codeUnits_def)

subsection \<open>Numbers\<close>

lemma littleEndian_snoc:
  "littleEndian (xs @ [d]) = littleEndian xs + (d - 48) * 10 ^ length xs"
  by (induction xs) (simp_all add: algebra_simps)

lemma foldl_decimal:
  "foldl (\<lambda>acc u. 10 * acc + digitValue u) a ds = a * 10 ^ length ds + decimal ds"
proof (induction ds arbitrary: a)
  case Nil
  show ?case by (simp add: decimal_def)
next
  case (Cons d ds)
  have "foldl (\<lambda>acc u. 10 * acc + digitValue u) a (d # ds)
        = foldl (\<lambda>acc u. 10 * acc + digitValue u) (10 * a + digitValue d) ds"
    by simp
  also have "\<dots> = (10 * a + digitValue d) * 10 ^ length ds + decimal ds"
    by (rule Cons.IH)
  also have "\<dots> = a * 10 ^ length (d # ds) + decimal (d # ds)"
    by (simp add: decimal_def littleEndian_snoc digitValue_def algebra_simps)
  finally show ?case .
qed

lemma parseInt10_decimal: "parseInt10 value = toNumber (decimal value)"
  by (simp add: parseInt10_def foldl_decimal)

lemma exponent_le: "n < 2 ^ (53 + j) \<Longrightarrow> exponent n \<le> j"
proof (induction j arbitrary: n)
  case 0
  then show ?case by (simp add: exponent.simps)
next
  case (Suc j)
  show ?case
  proof (cases "n < 2 ^ 53")
    case True
    then show ?thesis by (simp add: exponent.simps)
  next
    case False
    have "(2::nat) ^ (53 + Suc j) = 2 ^ (53 + j) * 2"
      by (simp only: add_Suc_right power_Suc mult.commute)
    with Suc.prems have "n < 2 ^ (53 + j) * 2" by (simp only:)
    then have "n div 2 < 2 ^ (53 + j)" by (rule less_mult_imp_div_less)
    from Suc.IH [OF this] False show ?thesis
      by (subst exponent.simps) simp
  qed
qed

text \<open>An integer below \<open>2\<^sup>5\<^sup>3\<close> times a power of two is a double.\<close>

lemma toNumber_scaled:
  assumes "a < 2 ^ 53" and "k \<le> 900"
  shows "toNumber (a * 2 ^ k) = Num (a * 2 ^ k)"
proof -
  define N where "N = a * 2 ^ k"
  define e where "e = exponent N"
  have "N < 2 ^ 53 * 2 ^ k" using assms(1) by (simp add: N_def)
  then have lt: "N < 2 ^ (53 + k)" by (simp add: power_add)
  then have ek: "e \<le> k" unfolding e_def by (rule exponent_le)
  then have "(2::nat) ^ e dvd 2 ^ k" by (simp add: le_imp_power_dvd)
  then have dv: "2 ^ e dvd N" by (simp add: N_def)
  then have r: "N mod 2 ^ e = 0" and q: "N div 2 ^ e * 2 ^ e = N" by simp_all
  have "(2::nat) ^ (53 + k) \<le> 2 ^ 953" using assms(2) by (intro power_increasing) simp_all
  also have "\<dots> < (2::nat) ^ 1024" by (intro power_strict_increasing) simp_all
  finally have big: "N < 2 ^ 1024" using lt by simp
  show ?thesis
    unfolding N_def [symmetric] toNumber_def Let_def e_def [symmetric]
    using r q big by simp
qed

lemma toNumber_safe: "a < 2 ^ 53 \<Longrightarrow> toNumber a = Num a"
  using toNumber_scaled [of a 0] by simp

subsection \<open>parseMemoryLimit\<close>

lemma isDigit_iff: "isDigit u \<longleftrightarrow> u \<in> set (codeUnits ''0123456789'')"
  unfolding isDigit_def codeUnits_def by simp arith

lemma digits_iff: "list_all isDigit v \<longleftrightarrow> set v \<subseteq> set (codeUnits ''0123456789'')"
  by (auto simp: list_all_iff isDigit_iff)

lemma isDigit_lowerCaseUnit: "isDigit (lowerCaseUnit u) = isDigit u"
  by (auto simp: isDigit_def lowerCaseUnit_def)

lemma lowerCaseUnit_digit: "isDigit u \<Longrightarrow> lowerCaseUnit u = u"
  by (auto simp: isDigit_def lowerCaseUnit_def)

lemma lowerCaseUnit_digits: "list_all isDigit ds \<Longrightarrow> map lowerCaseUnit ds = ds"
  by (induction ds) (auto simp: lowerCaseUnit_digit)

lemma lowerCaseUnit_unit:
  "lowerCaseUnit u \<in> {98, 107, 109, 103} \<longleftrightarrow> u \<in> set (codeUnits ''bkmgBKMG'') \<or> u = 0x212A"
  unfolding lowerCaseUnit_def codeUnits_def by (simp split: if_splits) arith

lemma units_lowerCaseUnit:
  "u \<in> set (codeUnits ''bkmgBKMG'') \<Longrightarrow> units (lowerCaseUnit u) = Some (unitFactor u)"
  unfolding codeUnits_def list.set list.map insert_iff empty_iff
  by (elim disjE) (simp_all add: units_def unitFactor_def lowerCaseUnit_def codeUnits_def)

lemma matchMemoryLimit_iff:
  "matchMemoryLimit s = Some (v, u) \<longleftrightarrow>
     (map lowerCaseUnit s = v @ [u] \<and> v \<noteq> [] \<and> list_all isDigit v \<and> u \<in> {98, 107, 109, 103})"
proof
  define lower where "lower = map lowerCaseUnit s"
  assume m: "matchMemoryLimit s = Some (v, u)"
  then have r: "dropWhile isDigit lower = [u]" and v: "takeWhile isDigit lower = v"
    and ne: "v \<noteq> []" and uu: "u \<in> {98, 107, 109, 103}"
    unfolding lower_def
    by (auto simp: matchMemoryLimit_def Let_def split: list.splits if_splits)
  have "lower = takeWhile isDigit lower @ dropWhile isDigit lower" by simp
  then have "lower = v @ [u]" using r v by simp
  moreover have "list_all isDigit v" using v by (auto simp: list_all_iff dest: set_takeWhileD)
  ultimately show "map lowerCaseUnit s = v @ [u] \<and> v \<noteq> [] \<and> list_all isDigit v
      \<and> u \<in> {98, 107, 109, 103}"
    using ne uu by (simp add: lower_def)
next
  assume a: "map lowerCaseUnit s = v @ [u] \<and> v \<noteq> [] \<and> list_all isDigit v
      \<and> u \<in> {98, 107, 109, 103}"
  then have nd: "\<not> isDigit u" by (auto simp: isDigit_def)
  from a have all: "\<forall>x\<in>set v. isDigit x" by (simp add: list_all_iff)
  have "takeWhile isDigit (v @ [u]) = v" using all nd by (simp add: takeWhile_append2)
  moreover have "dropWhile isDigit (v @ [u]) = [u]" using all nd by (simp add: dropWhile_append2)
  ultimately show "matchMemoryLimit s = Some (v, u)"
    using a by (simp add: matchMemoryLimit_def Let_def)
qed

lemma parseMemoryLimit_digits_unit:
  assumes "s \<noteq> []" and "butlast s \<noteq> []" and "list_all isDigit (butlast s)"
    and "lowerCaseUnit (last s) \<in> {98, 107, 109, 103}"
    and "units (lowerCaseUnit (last s)) = Some f"
  shows "parseMemoryLimit s = Inr (multiply (toNumber (decimal (butlast s))) f)"
proof -
  have s: "s = butlast s @ [last s]" using assms(1) by simp
  have "map lowerCaseUnit s = map lowerCaseUnit (butlast s) @ [lowerCaseUnit (last s)]"
    by (subst s) simp
  then have low: "map lowerCaseUnit s = butlast s @ [lowerCaseUnit (last s)]"
    using assms(3) by (simp add: lowerCaseUnit_digits)
  have "matchMemoryLimit s = Some (butlast s, lowerCaseUnit (last s))"
    unfolding matchMemoryLimit_iff using low assms(2,3,4) by simp
  then show ?thesis
    using assms(2,5) by (simp add: parseMemoryLimit_def parseInt10_decimal)
qed

lemma parseMemoryLimit_format:
  assumes "memoryLimitFormat s"
  shows "parseMemoryLimit s
           = Inr (multiply (toNumber (decimal (butlast s))) (unitFactor (last s)))"
proof -
  from assms have ne: "s \<noteq> []" "butlast s \<noteq> []" and dg: "list_all isDigit (butlast s)"
    and u: "last s \<in> set (codeUnits ''bkmgBKMG'')"
    by (simp_all add: memoryLimitFormat_def digits_iff)
  from u have "lowerCaseUnit (last s) \<in> {98, 107, 109, 103}"
    by (simp only: lowerCaseUnit_unit) simp
  from parseMemoryLimit_digits_unit [OF ne dg this units_lowerCaseUnit [OF u]]
  show ?thesis .
qed

lemma parseMemoryLimit_kelvin:
  assumes "kelvinLimit s"
  shows "parseMemoryLimit s = Inr (multiply (toNumber (decimal (butlast s))) 1024)"
proof -
  from assms have ne: "s \<noteq> []" "butlast s \<noteq> []" and dg: "list_all isDigit (butlast s)"
    and u: "last s = 0x212A"
    by (simp_all add: kelvinLimit_def digits_iff)
  have a: "lowerCaseUnit (last s) \<in> {98, 107, 109, 103}"
    by (simp add: u lowerCaseUnit_def)
  have b: "units (lowerCaseUnit (last s)) = Some 1024"
    by (simp add: u lowerCaseUnit_def units_def)
  from parseMemoryLimit_digits_unit [OF ne dg a b] show ?thesis .
qed

lemma parseMemoryLimit_Inr_accepted:
  assumes "parseMemoryLimit s = Inr n"
  shows "memoryLimitFormat s \<or> kelvinLimit s"
proof -
  from assms obtain v u where m: "matchMemoryLimit s = Some (v, u)"
    by (auto simp: parseMemoryLimit_def split: option.splits)
  then have low: "map lowerCaseUnit s = v @ [u]" and ne: "v \<noteq> []" and dg: "list_all isDigit v"
    and u: "u \<in> {98, 107, 109, 103}"
    unfolding matchMemoryLimit_iff by simp_all
  have len: "length s = length v + 1"
    using arg_cong [OF low, of length] by simp
  then have sne: "s \<noteq> []" by auto
  have "map lowerCaseUnit (butlast s @ [last s]) = v @ [u]"
    using low sne by simp
  then have b: "map lowerCaseUnit (butlast s) = v" and l: "lowerCaseUnit (last s) = u" by simp_all
  from b dg have "list_all isDigit (butlast s)"
    by (auto simp: list_all_iff isDigit_lowerCaseUnit)
  then have d: "set (butlast s) \<subseteq> set (codeUnits ''0123456789'')" by (simp only: digits_iff)
  from b ne have bne: "butlast s \<noteq> []" by auto
  from l u have "last s \<in> set (codeUnits ''bkmgBKMG'') \<or> last s = 0x212A"
    by (simp only: lowerCaseUnit_unit [symmetric])
  then show ?thesis using sne bne d by (auto simp: memoryLimitFormat_def kelvinLimit_def)
qed

lemma parseMemoryLimit_Inl_iff:
  "(\<exists>msg. parseMemoryLimit s = Inl msg) \<longleftrightarrow> \<not> (memoryLimitFormat s \<or> kelvinLimit s)"
  using parseMemoryLimit_format [of s] parseMemoryLimit_kelvin [of s]
    parseMemoryLimit_Inr_accepted [of s]
  by (cases "parseMemoryLimit s") auto

lemma unitFactor_power: "\<exists>k \<le> 30. unitFactor u = 2 ^ k"
proof -
  have a: "\<exists>k \<le> 30. (1::nat) = 2 ^ k" by (intro exI [of _ 0]) simp
  have b: "\<exists>k \<le> 30. (1024::nat) = 2 ^ k" by (intro exI [of _ 10]) simp
  have c: "\<exists>k \<le> 30. (1024 * 1024 :: nat) = 2 ^ k" by (intro exI [of _ 20]) simp
  have d: "\<exists>k \<le> 30. (1024 * 1024 * 1024 :: nat) = 2 ^ k" by (intro exI [of _ 30]) simp
  show ?thesis
  proof (cases "u \<in> set (codeUnits ''bB'')")
    case True
    then show ?thesis using a by (simp only: unitFactor_def if_True if_False simp_thms)
  next
    case nb: False
    show ?thesis
    proof (cases "u \<in> set (codeUnits ''kK'')")
      case True
      then show ?thesis using nb b by (simp only: unitFactor_def if_True if_False simp_thms)
    next
      case nk: False
      show ?thesis
      proof (cases "u \<in> set (codeUnits ''mM'')")
        case True
        then show ?thesis using nb nk c by (simp only: unitFactor_def if_True if_False simp_thms)
      next
        case False
        then show ?thesis using nb nk d by (simp only: unitFactor_def if_True if_False simp_thms)
      qed
    qed
  qed
qed

lemma multiply_exact:
  assumes "d < 2 ^ 53" and "k \<le> 30"
  shows "multiply (toNumber d) (2 ^ k) = Num (d * 2 ^ k)"
  using assms by (simp add: toNumber_safe multiply_def toNumber_scaled)

lemmas memory_eval =
  parseMemoryLimit_def matchMemoryLimit_def lowerCaseUnit_def isDigit_def
  units_def parseInt10_def digitValue_def codeUnits_def multiply_def toNumber_def Let_def
  exponent.simps

subsection \<open>createSandbox and the memory limit\<close>

lemma createSandbox_bad_limit:
  assumes "parseMemoryLimit (case cfg_memoryLimit config of Some m \<Rightarrow> m | None \<Rightarrow> codeUnits ''512m'')
             = Inl msg"
  shows "createSandbox drv sandboxId name config st =
           createFailed sandboxId
             \<lparr> sb_id = sandboxId, sb_name = name, sb_status = CREATING, sb_containerId = None,
               sb_createdAt = clock st, sb_config = defaultConfig config \<rparr> msg
             (st\<lparr>sandboxes := mapSet (sandboxes st) sandboxId
                 \<lparr> sb_id = sandboxId, sb_name = name, sb_status = CREATING, sb_containerId = None,
                   sb_createdAt = clock st, sb_config = defaultConfig config \<rparr>\<rparr>)"
  using assms by (simp add: createSandbox_def Let_def defaultConfig_def)

lemma createSandbox_calls_prefix:
  assumes "parseMemoryLimit (case cfg_memoryLimit config of Some m \<Rightarrow> m | None \<Rightarrow> codeUnits ''512m'')
             = Inr memory"
  shows "\<exists>rest. calls (snd (createSandbox drv sandboxId name config st)) =
           calls st @ CreateContainer (createOptions sandboxId (defaultConfig config) memory) # rest"
  using assms
  by (auto simp: createSandbox_def Let_def defaultConfig_def createFailed_def sent_def
           split: sum.splits option.splits)

lemma createSandbox_result:
  assumes "parseMemoryLimit (case cfg_memoryLimit config of Some m \<Rightarrow> m | None \<Rightarrow> codeUnits ''512m'')
             = Inr memory"
  shows "createSandbox drv sandboxId name config st =
    (let dc = defaultConfig config;
         sandboxInfo = \<lparr> sb_id = sandboxId, sb_name = name, sb_status = CREATING,
                         sb_containerId = None, sb_createdAt = clock st, sb_config = dc \<rparr>;
         st1 = st\<lparr>sandboxes := mapSet (sandboxes st) sandboxId sandboxInfo\<rparr>;
         opts = createOptions sandboxId dc memory;
         st2 = sent (CreateContainer opts) st1
     in case d_createContainer drv (calls st) opts of
          Inl msg \<Rightarrow> createFailed sandboxId sandboxInfo (codeUnits msg) st2
        | Inr cid \<Rightarrow>
            (let st3 = sent (ContainerStart cid) st2
             in case d_start drv (calls st @ [CreateContainer opts]) cid of
                  Some msg \<Rightarrow> createFailed sandboxId sandboxInfo (codeUnits msg) st3
                | None \<Rightarrow>
                    (let running = sandboxInfo\<lparr>sb_containerId := Some cid, sb_status := RUNNING\<rparr>;
                         st4 = st3\<lparr>sandboxes := mapSet (sandboxes st3) sandboxId running\<rparr>;
                         t = (case cfg_timeout config of Some t \<Rightarrow> t | None \<Rightarrow> 300000)
                     in (Inr running,
                         if t \<noteq> 0
                         then st4\<lparr>timers := timers st4 @ [(clock st + timerDelay t, sandboxId)]\<rparr>
                         else st4))))"
  using assms
  by (simp add: createSandbox_def Let_def defaultConfig_def sent_def split: sum.splits option.splits)

lemma default_limit:
  "parseMemoryLimit (case cfg_memoryLimit noConfig of Some m \<Rightarrow> m | None \<Rightarrow> codeUnits ''512m'')
     = Inr (Num 536870912)"
  by (simp add: noConfig_def memory_eval)

text \<open>
  C10, as the code has it. \<open>parseMemoryLimit\<close> accepts a limit exactly when it is decimal
  digits followed by one unit letter among b, k, m, g in either case, or by U+212A KELVIN SIGN
  (which \<open>toLowerCase\<close> turns into k). When the integer that the digits spell is below
  \<open>2\<^sup>5\<^sup>3\<close>, the result is that integer times 1, 1024, \<open>1024\<^sup>2\<close> or \<open>1024\<^sup>3\<close> (times 1024
  for the Kelvin sign). With a limit that is not accepted \<open>createSandbox\<close> throws before any
  request reaches the engine; with an accepted limit and an integer below \<open>2\<^sup>5\<^sup>3\<close> the
  \<open>Memory\<close> of the \<open>createContainer\<close> request is the product.
\<close>

theorem parseMemoryLimit_accepted_limits:
  "((\<exists>n. parseMemoryLimit limit = Inr n) \<longleftrightarrow> memoryLimitFormat limit \<or> kelvinLimit limit)
   \<and> (memoryLimitFormat limit \<and> decimal (butlast limit) < 2 ^ 53 \<longrightarrow>
        parseMemoryLimit limit = Inr (Num (decimal (butlast limit) * unitFactor (last limit))))
   \<and> (kelvinLimit limit \<and> decimal (butlast limit) < 2 ^ 53 \<longrightarrow>
        parseMemoryLimit limit = Inr (Num (decimal (butlast limit) * 1024)))
   \<and> (cfg_memoryLimit config = Some limit \<and> \<not> (memoryLimitFormat limit \<or> kelvinLimit limit) \<longrightarrow>
        (\<exists>msg. fst (createSandbox drv sandboxId name config st) = Inl msg)
        \<and> calls (snd (createSandbox drv sandboxId name config st)) = calls st)
   \<and> (cfg_memoryLimit config = Some limit \<and> memoryLimitFormat limit
        \<and> decimal (butlast limit) < 2 ^ 53 \<longrightarrow>
        (\<exists>opts rest.
           calls (snd (createSandbox drv sandboxId name config st))
             = calls st @ CreateContainer opts # rest
           \<and> co_Memory opts = Num (decimal (butlast limit) * unitFactor (last limit))))
   \<and> (cfg_memoryLimit config = Some limit \<and> kelvinLimit limit
        \<and> decimal (butlast limit) < 2 ^ 53 \<longrightarrow>
        (\<exists>opts rest.
           calls (snd (createSandbox drv sandboxId name config st))
             = calls st @ CreateContainer opts # rest
           \<and> co_Memory opts = Num (decimal (butlast limit) * 1024)))"
proof -
  have fmt: "parseMemoryLimit limit = Inr (Num (decimal (butlast limit) * unitFactor (last limit)))"
    if "memoryLimitFormat limit" and "decimal (butlast limit) < 2 ^ 53"
  proof -
    obtain k where k: "k \<le> 30" "unitFactor (last limit) = 2 ^ k"
      using unitFactor_power by blast
    show ?thesis
      unfolding parseMemoryLimit_format [OF that(1)] k(2)
      by (simp only: multiply_exact [OF that(2) k(1)])
  qed
  have kel: "parseMemoryLimit limit = Inr (Num (decimal (butlast limit) * 1024))"
    if "kelvinLimit limit" and "decimal (butlast limit) < 2 ^ 53"
  proof -
    have "(1024::nat) = 2 ^ 10" by simp
    then show ?thesis
      unfolding parseMemoryLimit_kelvin [OF that(1)]
      using multiply_exact [OF that(2), of 10] by simp
  qed
  have acc: "(\<exists>n. parseMemoryLimit limit = Inr n) \<longleftrightarrow> memoryLimitFormat limit \<or> kelvinLimit limit"
    using parseMemoryLimit_format parseMemoryLimit_kelvin parseMemoryLimit_Inr_accepted by blast
  have bad: "(\<exists>msg. fst (createSandbox drv sandboxId name config st) = Inl msg)
        \<and> calls (snd (createSandbox drv sandboxId name config st)) = calls st"
    if a: "cfg_memoryLimit config = Some limit \<and> \<not> (memoryLimitFormat limit \<or> kelvinLimit limit)"
  proof -
    from a obtain msg where "parseMemoryLimit limit = Inl msg"
      using parseMemoryLimit_Inl_iff by blast
    then have p: "parseMemoryLimit
        (case cfg_memoryLimit config of Some m \<Rightarrow> m | None \<Rightarrow> codeUnits ''512m'') = Inl msg"
      using a by simp
    show ?thesis by (simp add: createSandbox_bad_limit [OF p] createFailed_def)
  qed
  have sent: "\<exists>opts rest.
           calls (snd (createSandbox drv sandboxId name config st))
             = calls st @ CreateContainer opts # rest
           \<and> co_Memory opts = memory"
    if a: "cfg_memoryLimit config = Some limit" and b: "parseMemoryLimit limit = Inr memory"
    for memory
  proof -
    have p: "parseMemoryLimit
        (case cfg_memoryLimit config of Some m \<Rightarrow> m | None \<Rightarrow> codeUnits ''512m'') = Inr memory"
      using a b by simp
    from createSandbox_calls_prefix [OF p, of drv sandboxId name st]
    obtain rest where "calls (snd (createSandbox drv sandboxId name config st)) =
        calls st @ CreateContainer (createOptions sandboxId (defaultConfig config) memory) # rest"
      by blast
    moreover have "co_Memory (createOptions sandboxId (defaultConfig config) memory) = memory"
      by (simp add: createOptions_def)
    ultimately show ?thesis by blast
  qed
  have good: "\<exists>opts rest.
           calls (snd (createSandbox drv sandboxId name config st))
             = calls st @ CreateContainer opts # rest
           \<and> co_Memory opts = Num (decimal (butlast limit) * unitFactor (last limit))"
    if "cfg_memoryLimit config = Some limit \<and> memoryLimitFormat limit
        \<and> decimal (butlast limit) < 2 ^ 53"
    using that fmt sent by blast
  have goodk: "\<exists>opts rest.
           calls (snd (createSandbox drv sandboxId name config st))
             = calls st @ CreateContainer opts # rest
           \<and> co_Memory opts = Num (decimal (butlast limit) * 1024)"
    if "cfg_memoryLimit config = Some limit \<and> kelvinLimit limit
        \<and> decimal (butlast limit) < 2 ^ 53"
    using that kel sent by blast
  show ?thesis using acc fmt kel bad good goodk by blast
qed

theorem parseMemoryLimit_accepted_limits_witness:
  "parseMemoryLimit (codeUnits ''512M'') = Inr (Num 536870912)
   \<and> \<not> (\<exists>n. parseMemoryLimit (codeUnits ''512mb'') = Inr n)
   \<and> \<not> (\<exists>n. parseMemoryLimit (codeUnits ''512'') = Inr n)
   \<and> parseMemoryLimit (codeUnits ''512'' @ [0x212A]) = Inr (Num 524288)
   \<and> (\<exists>msg. fst (createSandbox (engine (Inr ''c1'') noStream) ''sb_1'' ''demo''
                    (noConfig\<lparr>cfg_memoryLimit := Some (codeUnits ''512mb'')\<rparr>) newManager) = Inl msg)
   \<and> calls (snd (createSandbox (engine (Inr ''c1'') noStream) ''sb_1'' ''demo''
                    (noConfig\<lparr>cfg_memoryLimit := Some (codeUnits ''512mb'')\<rparr>) newManager)) = []
   \<and> (\<exists>opts rest.
         calls (snd (createSandbox (engine (Inr ''c1'') noStream) ''sb_1'' ''demo''
                    (noConfig\<lparr>cfg_memoryLimit := Some (codeUnits ''2g'')\<rparr>) newManager))
           = CreateContainer opts # rest
         \<and> co_Memory opts = Num 2147483648)"
proof -
  define eng where "eng = engine (Inr ''c1'') noStream"
  have f: "memoryLimitFormat (codeUnits ''512M'')" "\<not> memoryLimitFormat (codeUnits ''512mb'')"
    "\<not> memoryLimitFormat (codeUnits ''512'')" "memoryLimitFormat (codeUnits ''2g'')"
    "\<not> kelvinLimit (codeUnits ''512mb'')" "\<not> kelvinLimit (codeUnits ''512'')"
    "kelvinLimit (codeUnits ''512'' @ [0x212A])"
    by (simp_all add: memoryLimitFormat_def kelvinLimit_def codeUnits_def)
  have v: "decimal (butlast (codeUnits ''512M'')) = 512"
    "unitFactor (last (codeUnits ''512M'')) = 1048576"
    "decimal (butlast (codeUnits ''2g'')) = 2"
    "unitFactor (last (codeUnits ''2g'')) = 1073741824"
    "decimal (butlast (codeUnits ''512'' @ [0x212A])) = 512"
    by (simp_all add: decimal_def unitFactor_def codeUnits_def)
  have c: "cfg_memoryLimit (noConfig\<lparr>cfg_memoryLimit := Some (codeUnits ''512mb'')\<rparr>)
             = Some (codeUnits ''512mb'')"
    "cfg_memoryLimit (noConfig\<lparr>cfg_memoryLimit := Some (codeUnits ''2g'')\<rparr>) = Some (codeUnits ''2g'')"
    by simp_all
  have n: "calls newManager = []" by (simp add: newManager_def)
  have lt: "(512::nat) < 2 ^ 53" "(2::nat) < 2 ^ 53" by simp_all
  note a = parseMemoryLimit_accepted_limits
    [of "codeUnits ''512M''" noConfig eng "''sb_1''" "''demo''" newManager]
  note b = parseMemoryLimit_accepted_limits
    [of "codeUnits ''512mb''" "noConfig\<lparr>cfg_memoryLimit := Some (codeUnits ''512mb'')\<rparr>"
        eng "''sb_1''" "''demo''" newManager]
  note d = parseMemoryLimit_accepted_limits
    [of "codeUnits ''512''" noConfig eng "''sb_1''" "''demo''" newManager]
  note e = parseMemoryLimit_accepted_limits
    [of "codeUnits ''2g''" "noConfig\<lparr>cfg_memoryLimit := Some (codeUnits ''2g'')\<rparr>"
        eng "''sb_1''" "''demo''" newManager]
  note k = parseMemoryLimit_accepted_limits
    [of "codeUnits ''512'' @ [0x212A]" noConfig eng "''sb_1''" "''demo''" newManager]
  have 1: "parseMemoryLimit (codeUnits ''512M'') = Inr (Num 536870912)"
    using a f(1) lt unfolding v by simp
  have 2: "\<not> (\<exists>n. parseMemoryLimit (codeUnits ''512mb'') = Inr n)"
    using b f(2,5) by blast
  have 3: "\<not> (\<exists>n. parseMemoryLimit (codeUnits ''512'') = Inr n)"
    using d f(3,6) by blast
  have 4: "parseMemoryLimit (codeUnits ''512'' @ [0x212A]) = Inr (Num 524288)"
    using k f(7) lt unfolding v by simp
  have 5: "(\<exists>msg. fst (createSandbox eng ''sb_1'' ''demo''
                    (noConfig\<lparr>cfg_memoryLimit := Some (codeUnits ''512mb'')\<rparr>) newManager) = Inl msg)
     \<and> calls (snd (createSandbox eng ''sb_1'' ''demo''
                    (noConfig\<lparr>cfg_memoryLimit := Some (codeUnits ''512mb'')\<rparr>) newManager)) = []"
    using b f(2,5) c(1) unfolding n by blast
  have 6: "\<exists>opts rest.
         calls (snd (createSandbox eng ''sb_1'' ''demo''
                    (noConfig\<lparr>cfg_memoryLimit := Some (codeUnits ''2g'')\<rparr>) newManager))
           = CreateContainer opts # rest
         \<and> co_Memory opts = Num 2147483648"
    using e f(4) c(2) lt unfolding n v by simp
  show ?thesis unfolding eng_def [symmetric] using 1 2 3 4 5 6 by blast
qed

text \<open>The statement of C10 fails in both halves. The limit \<open>512\<close> followed by U+212A is not in
  the stated format and is accepted, as 512 times 1024. The limit \<open>9007199254740993b\<close> is in the
  format; the integer times 1 is 9007199254740993, and the code returns 9007199254740992, the
  nearest double, which \<open>createSandbox\<close> hands to the engine.\<close>

theorem parseMemoryLimit_format_counterexample:
  "\<not> memoryLimitFormat (codeUnits ''512'' @ [0x212A])
   \<and> parseMemoryLimit (codeUnits ''512'' @ [0x212A]) = Inr (Num 524288)
   \<and> memoryLimitFormat (codeUnits ''9007199254740993b'')
   \<and> decimal (butlast (codeUnits ''9007199254740993b''))
        * unitFactor (last (codeUnits ''9007199254740993b'')) = 9007199254740993
   \<and> parseMemoryLimit (codeUnits ''9007199254740993b'') = Inr (Num 9007199254740992)
   \<and> calls (snd (createSandbox (engine (Inr ''c1'') noStream) ''sb_1'' ''demo''
               (noConfig\<lparr>cfg_memoryLimit := Some (codeUnits ''9007199254740993b'')\<rparr>) newManager))
       = [CreateContainer
            (createOptions ''sb_1''
               (defaultConfig (noConfig\<lparr>cfg_memoryLimit := Some (codeUnits ''9007199254740993b'')\<rparr>))
               (Num 9007199254740992)),
          ContainerStart ''c1'']"
proof -
  have a: "\<not> memoryLimitFormat (codeUnits ''512'' @ [0x212A])"
    by (simp add: memoryLimitFormat_def codeUnits_def)
  have b: "parseMemoryLimit (codeUnits ''512'' @ [0x212A]) = Inr (Num 524288)"
    by (simp add: memory_eval)
  have c: "memoryLimitFormat (codeUnits ''9007199254740993b'')"
    by (simp add: memoryLimitFormat_def codeUnits_def)
  have d: "decimal (butlast (codeUnits ''9007199254740993b''))
        * unitFactor (last (codeUnits ''9007199254740993b'')) = 9007199254740993"
    by (simp add: decimal_def unitFactor_def codeUnits_def)
  have e: "parseMemoryLimit (codeUnits ''9007199254740993b'') = Inr (Num 9007199254740992)"
    by (simp add: memory_eval)
  then have p: "parseMemoryLimit
      (case cfg_memoryLimit (noConfig\<lparr>cfg_memoryLimit := Some (codeUnits ''9007199254740993b'')\<rparr>) of
         Some m \<Rightarrow> m | None \<Rightarrow> codeUnits ''512m'') = Inr (Num 9007199254740992)"
    by simp
  have f: "calls (snd (createSandbox (engine (Inr ''c1'') noStream) ''sb_1'' ''demo''
               (noConfig\<lparr>cfg_memoryLimit := Some (codeUnits ''9007199254740993b'')\<rparr>) newManager))
       = [CreateContainer
            (createOptions ''sb_1''
               (defaultConfig (noConfig\<lparr>cfg_memoryLimit := Some (codeUnits ''9007199254740993b'')\<rparr>))
               (Num 9007199254740992)),
          ContainerStart ''c1'']"
    unfolding createSandbox_result [OF p]
    by (simp add: engine_def Let_def sent_def newManager_def noConfig_def)
  show ?thesis using a b c d e f by blast
qed

subsection \<open>The registry under the lifecycle operations\<close>

lemma sandboxes_teardown: "sandboxes (teardown drv sandbox st) = sandboxes st"
  by (simp add: teardown_def sent_def Let_def split: option.splits)

lemma cleanupSandbox_absent:
  "getSandbox st sandboxId = None \<Longrightarrow>
     cleanupSandbox drv sandboxId st = (Inl (''Sandbox '' @ sandboxId @ '' not found''), st)"
  by (simp add: cleanupSandbox_def getSandbox_def)

lemma cleanupSandbox_present:
  "getSandbox st sandboxId = Some sandbox \<Longrightarrow>
     cleanupSandbox drv sandboxId st =
       (Inr (), (teardown drv sandbox st)\<lparr>sandboxes := mapDelete (sandboxes st) sandboxId\<rparr>)"
  by (simp add: cleanupSandbox_def getSandbox_def Let_def sandboxes_teardown)

lemma sandboxes_cleanupSandbox:
  "sandboxes (snd (cleanupSandbox drv sandboxId st)) = mapDelete (sandboxes st) sandboxId"
proof (cases "getSandbox st sandboxId")
  case None
  then have "sandboxId \<notin> set (mapKeys (sandboxes st))"
    by (simp add: getSandbox_def mapGet_None_iff)
  then have "mapDelete (sandboxes st) sandboxId = sandboxes st"
    by (auto simp: mapDelete_def mapKeys_def filter_id_conv)
  with None show ?thesis by (simp add: cleanupSandbox_absent)
next
  case (Some sandbox)
  then show ?thesis by (simp add: cleanupSandbox_present)
qed

lemma createSandbox_thrown:
  assumes "fst (createSandbox drv sandboxId name config st) = Inl e"
  shows "\<exists>info. getSandbox (snd (createSandbox drv sandboxId name config st)) sandboxId = Some info
           \<and> sb_status info = ERROR \<and> sb_id info = sandboxId \<and> sb_containerId info = None"
  using assms
  by (auto simp: createSandbox_def Let_def createFailed_def getSandbox_def mapGet_mapSet
           split: sum.splits option.splits if_splits)

lemma createSandbox_others:
  "other \<noteq> sandboxId \<Longrightarrow>
     getSandbox (snd (createSandbox drv sandboxId name config st)) other = getSandbox st other"
  by (auto simp: createSandbox_def Let_def createFailed_def getSandbox_def mapGet_mapSet sent_def
           split: sum.splits option.splits if_splits)

text \<open>
  C3. When the engine rejects \<open>createContainer\<close> or \<open>start\<close>, \<open>createSandbox\<close> throws
  (\<open>Failed to create sandbox: \<close> and the engine's message) and the registry keeps the entry of
  the new id with status \<open>ERROR\<close>: it is neither deleted nor left in \<open>CREATING\<close>. Whenever
  \<open>createSandbox\<close> throws, the entry is there with status \<open>ERROR\<close>, while the lookup of any
  other id answers as before the call, so an id that never existed is still not found.
\<close>

theorem createSandbox_rejected_keeps_error_entry:
  assumes "parseMemoryLimit (case cfg_memoryLimit config of Some m \<Rightarrow> m | None \<Rightarrow> codeUnits ''512m'') = Inr memory"
    and "opts = createOptions sandboxId (defaultConfig config) memory"
    and "d_createContainer drv (calls st) opts = Inl msg
         \<or> (d_createContainer drv (calls st) opts = Inr cid
            \<and> d_start drv (calls st @ [CreateContainer opts]) cid = Some msg)"
  shows "fst (createSandbox drv sandboxId name config st) = Inl (codeUnits ''Failed to create sandbox: '' @ codeUnits msg)
    \<and> (\<exists>info. getSandbox (snd (createSandbox drv sandboxId name config st)) sandboxId = Some info
           \<and> sb_status info = ERROR \<and> sb_id info = sandboxId)
    \<and> (\<forall>e. fst (createSandbox drv' sandboxId name config' st) = Inl e \<longrightarrow>
           (\<exists>info. getSandbox (snd (createSandbox drv' sandboxId name config' st)) sandboxId = Some info
              \<and> sb_status info = ERROR))
    \<and> (\<forall>other. other \<noteq> sandboxId \<longrightarrow>
           getSandbox (snd (createSandbox drv sandboxId name config st)) other = getSandbox st other)"
proof -
  have thrown: "fst (createSandbox drv sandboxId name config st) = Inl (codeUnits ''Failed to create sandbox: '' @ codeUnits msg)"
    using assms(3) unfolding createSandbox_result [OF assms(1)] assms(2) Let_def
    by (auto simp: createFailed_def)
  from createSandbox_thrown [OF thrown]
  have entry: "\<exists>info. getSandbox (snd (createSandbox drv sandboxId name config st)) sandboxId = Some info
           \<and> sb_status info = ERROR \<and> sb_id info = sandboxId"
    by blast
  have always: "\<forall>e. fst (createSandbox drv' sandboxId name config' st) = Inl e \<longrightarrow>
           (\<exists>info. getSandbox (snd (createSandbox drv' sandboxId name config' st)) sandboxId = Some info
              \<and> sb_status info = ERROR)"
    using createSandbox_thrown by blast
  show ?thesis using thrown entry always createSandbox_others by blast
qed

theorem createSandbox_rejected_keeps_error_entry_witness:
  "fst (createSandbox (engine (Inl ''no such image'') noStream) ''sb_1'' ''demo'' noConfig newManager)
     = Inl (codeUnits ''Failed to create sandbox: no such image'')
   \<and> (\<exists>info. getSandbox (snd (createSandbox (engine (Inl ''no such image'') noStream) ''sb_1''
                   ''demo'' noConfig newManager)) ''sb_1'' = Some info
          \<and> sb_status info = ERROR \<and> sb_id info = ''sb_1'')
   \<and> getSandbox (snd (createSandbox (engine (Inl ''no such image'') noStream) ''sb_1''
                   ''demo'' noConfig newManager)) ''sb_2'' = None"
proof -
  have p: "parseMemoryLimit (case cfg_memoryLimit noConfig of Some m \<Rightarrow> m | None \<Rightarrow> codeUnits ''512m'')
             = Inr (Num 536870912)"
    by (simp add: noConfig_def memory_eval)
  have r: "d_createContainer (engine (Inl ''no such image'') noStream) (calls newManager)
             (createOptions ''sb_1'' (defaultConfig noConfig) (Num 536870912)) = Inl ''no such image''
           \<or> (d_createContainer (engine (Inl ''no such image'') noStream) (calls newManager)
                 (createOptions ''sb_1'' (defaultConfig noConfig) (Num 536870912)) = Inr ''c1''
               \<and> d_start (engine (Inl ''no such image'') noStream)
                   (calls newManager @ [CreateContainer (createOptions ''sb_1'' (defaultConfig noConfig) (Num 536870912))])
                   ''c1'' = Some ''no such image'')"
    by (simp add: engine_def)
  have n: "getSandbox newManager ''sb_2'' = None"
    by (simp add: getSandbox_def newManager_def)
  from createSandbox_rejected_keeps_error_entry [OF p refl r, of "''demo''" "engine (Inl ''no such image'') noStream" noConfig]
  show ?thesis using n by (simp add: codeUnits_def)
qed

subsection \<open>Operations on an id that is not registered\<close>

lemma absent_operations:
  assumes "getSandbox st sandboxId = None"
  shows "cleanupSandbox drv sandboxId st = (Inl (''Sandbox '' @ sandboxId @ '' not found''), st)"
    and "executeInSandbox drv sandboxId command st = (Inl (''Sandbox '' @ sandboxId @ '' not found''), st)"
    and "pauseSandbox drv sandboxId st = (Inl (''Sandbox '' @ sandboxId @ '' not found''), st)"
    and "resumeSandbox drv sandboxId st = (Inl (''Sandbox '' @ sandboxId @ '' not found''), st)"
    and "getSandboxStats drv sandboxId st =
           (Inl (''Sandbox '' @ sandboxId @ '' not found or not running''), st)"
  using assms
  by (simp_all add: getSandbox_def cleanupSandbox_def executeInSandbox_def pauseSandbox_def
        resumeSandbox_def getSandboxStats_def)

lemma getSandbox_cleanupSandbox:
  "getSandbox (snd (cleanupSandbox drv sandboxId st)) other =
     (if other = sandboxId then None else getSandbox st other)"
  by (simp add: getSandbox_def sandboxes_cleanupSandbox mapGet_mapDelete)

text \<open>
  C4. For a registered id, \<open>cleanupSandbox\<close> returns normally and leaves a registry without
  the id: the lookup finds nothing, the key is gone, the list is the old list without the
  entries of that key, and no listed sandbox carries the id when every entry was stored under
  its own id. After that \<open>cleanupSandbox\<close>, \<open>executeInSandbox\<close>, \<open>pauseSandbox\<close> and
  \<open>resumeSandbox\<close> on the id throw \<open>Sandbox <id> not found\<close>, \<open>getSandboxStats\<close> throws
  \<open>Sandbox <id> not found or not running\<close>, whatever the engine would answer, and each leaves
  the state as it was: the second cleanup sends no request to the engine.
\<close>

theorem cleanupSandbox_then_not_found:
  assumes "getSandbox st sandboxId = Some sandbox"
    and "cleanupSandbox drv sandboxId st = (r, st')"
  shows "r = Inr ()
    \<and> getSandbox st' sandboxId = None
    \<and> sandboxId \<notin> set (mapKeys (sandboxes st'))
    \<and> listSandboxes st' = map snd (filter (\<lambda>e. fst e \<noteq> sandboxId) (sandboxes st))
    \<and> ((\<forall>e \<in> set (sandboxes st). sb_id (snd e) = fst e) \<longrightarrow>
          sandboxId \<notin> sb_id ` set (listSandboxes st'))
    \<and> cleanupSandbox drv' sandboxId st' = (Inl (''Sandbox '' @ sandboxId @ '' not found''), st')
    \<and> executeInSandbox drv' sandboxId command st'
          = (Inl (''Sandbox '' @ sandboxId @ '' not found''), st')
    \<and> pauseSandbox drv' sandboxId st' = (Inl (''Sandbox '' @ sandboxId @ '' not found''), st')
    \<and> resumeSandbox drv' sandboxId st' = (Inl (''Sandbox '' @ sandboxId @ '' not found''), st')
    \<and> getSandboxStats drv' sandboxId st'
          = (Inl (''Sandbox '' @ sandboxId @ '' not found or not running''), st')"
proof -
  from assms have r: "r = Inr ()"
    and st': "st' = (teardown drv sandbox st)\<lparr>sandboxes := mapDelete (sandboxes st) sandboxId\<rparr>"
    by (simp_all add: cleanupSandbox_present)
  have gone: "getSandbox st' sandboxId = None"
    using getSandbox_cleanupSandbox [of drv sandboxId st sandboxId] assms(2) by simp
  then have key: "sandboxId \<notin> set (mapKeys (sandboxes st'))"
    by (simp add: getSandbox_def mapGet_None_iff)
  have lst: "listSandboxes st' = map snd (filter (\<lambda>e. fst e \<noteq> sandboxId) (sandboxes st))"
    by (simp add: st' listSandboxes_def mapValues_def mapDelete_def)
  have ids: "(\<forall>e \<in> set (sandboxes st). sb_id (snd e) = fst e) \<longrightarrow>
          sandboxId \<notin> sb_id ` set (listSandboxes st')"
    unfolding lst by auto
  show ?thesis
    using r gone key lst ids absent_operations [OF gone] by simp
qed

theorem cleanupSandbox_then_not_found_witness:
  "snd (cleanupSandbox (engine (Inr ''c1'') noStream) ''sb_1''
         (snd (createSandbox (engine (Inr ''c1'') noStream) ''sb_1'' ''demo'' noConfig newManager)))
     = \<lparr> sandboxes = [],
         calls = [CreateContainer (createOptions ''sb_1'' (defaultConfig noConfig) (Num 536870912)),
                  ContainerStart ''c1'', ContainerStop ''c1'' 10],
         timers = [(300000, ''sb_1'')], clock = 0 \<rparr>
   \<and> cleanupSandbox (engine (Inr ''c1'') noStream) ''sb_1''
        (snd (cleanupSandbox (engine (Inr ''c1'') noStream) ''sb_1''
           (snd (createSandbox (engine (Inr ''c1'') noStream) ''sb_1'' ''demo'' noConfig newManager))))
     = (Inl ''Sandbox sb_1 not found'',
        snd (cleanupSandbox (engine (Inr ''c1'') noStream) ''sb_1''
           (snd (createSandbox (engine (Inr ''c1'') noStream) ''sb_1'' ''demo'' noConfig newManager))))"
proof -
  define eng where "eng = engine (Inr ''c1'') noStream"
  define running where "running =
     \<lparr> sb_id = ''sb_1'', sb_name = ''demo'', sb_status = RUNNING, sb_containerId = Some ''c1'',
       sb_createdAt = 0, sb_config = defaultConfig noConfig \<rparr>"
  define st1 where "st1 = snd (createSandbox eng ''sb_1'' ''demo'' noConfig newManager)"
  have p: "parseMemoryLimit (case cfg_memoryLimit noConfig of Some m \<Rightarrow> m | None \<Rightarrow> codeUnits ''512m'')
             = Inr (Num 536870912)"
    by (simp add: noConfig_def memory_eval)
  have st1: "st1 = \<lparr> sandboxes = [(''sb_1'', running)],
         calls = [CreateContainer (createOptions ''sb_1'' (defaultConfig noConfig) (Num 536870912)),
                  ContainerStart ''c1''],
         timers = [(300000, ''sb_1'')], clock = 0 \<rparr>"
    unfolding st1_def createSandbox_result [OF p]
    by (simp add: eng_def engine_def Let_def sent_def newManager_def noConfig_def running_def
          timerDelay_def)
  have g: "getSandbox st1 ''sb_1'' = Some running"
    by (simp add: st1 getSandbox_def)
  have t: "teardown eng running st1 = st1\<lparr>calls := calls st1 @ [ContainerStop ''c1'' 10]\<rparr>"
    by (simp add: teardown_def running_def defaultConfig_def noConfig_def eng_def engine_def
          sent_def Let_def)
  have c: "cleanupSandbox eng ''sb_1'' st1 =
      (Inr (), \<lparr> sandboxes = [],
         calls = [CreateContainer (createOptions ''sb_1'' (defaultConfig noConfig) (Num 536870912)),
                  ContainerStart ''c1'', ContainerStop ''c1'' 10],
         timers = [(300000, ''sb_1'')], clock = 0 \<rparr>)"
    unfolding cleanupSandbox_present [OF g] t by (simp add: st1 mapDelete_def)
  from cleanupSandbox_then_not_found [OF g c, of eng]
  show ?thesis
    unfolding eng_def [symmetric] st1_def [symmetric] c by simp
qed

subsection \<open>Pause and resume\<close>








lemma runningManager_eq:
  "runningManager =
     \<lparr> sandboxes = [(''sb_1'',
          \<lparr> sb_id = ''sb_1'', sb_name = ''demo'', sb_status = RUNNING, sb_containerId = Some ''c1'',
            sb_createdAt = 0, sb_config = defaultConfig noConfig \<rparr>)],
       calls = [CreateContainer (createOptions ''sb_1'' (defaultConfig noConfig) (Num 536870912)),
                ContainerStart ''c1''],
       timers = [(300000, ''sb_1'')], clock = 0 \<rparr>"
  unfolding runningManager_def createSandbox_result [OF default_limit]
  by (simp add: engine_def Let_def sent_def newManager_def noConfig_def timerDelay_def)




subsection \<open>trim\<close>

lemma isWhiteSpace_iff: "isWhiteSpace u \<longleftrightarrow> u \<in> set whiteSpaceUnits"
  unfolding isWhiteSpace_def isSpaceSeparator_def whiteSpaceUnits_def
  by (simp only: set_simps insert_iff empty_iff) arith

lemma trim_decompose:
  "\<exists>pre suf. s = pre @ trim s @ suf \<and> list_all isWhiteSpace pre \<and> list_all isWhiteSpace suf"
proof -
  define rest where "rest = dropWhile isWhiteSpace s"
  have s: "s = takeWhile isWhiteSpace s @ rest" by (simp add: rest_def)
  have "rev (dropWhile isWhiteSpace (rev rest)) @ rev (takeWhile isWhiteSpace (rev rest))
          = rev (takeWhile isWhiteSpace (rev rest) @ dropWhile isWhiteSpace (rev rest))"
    by (simp only: rev_append)
  also have "\<dots> = rest" by (simp only: takeWhile_dropWhile_id rev_rev_ident)
  finally have r: "rest = trim s @ rev (takeWhile isWhiteSpace (rev rest))"
    by (simp only: trim_def rest_def)
  have a: "list_all isWhiteSpace (takeWhile isWhiteSpace s)"
    by (auto simp: list_all_iff dest: set_takeWhileD)
  have b: "list_all isWhiteSpace (rev (takeWhile isWhiteSpace (rev rest)))"
    by (auto simp: list_all_iff dest: set_takeWhileD)
  from s r have "s = takeWhile isWhiteSpace s @ trim s @ rev (takeWhile isWhiteSpace (rev rest))"
    by simp
  with a b show ?thesis by blast
qed

lemma trim_ends:
  assumes "trim s \<noteq> []"
  shows "\<not> isWhiteSpace (hd (trim s)) \<and> \<not> isWhiteSpace (last (trim s))"
proof -
  define rest where "rest = dropWhile isWhiteSpace s"
  define d where "d = dropWhile isWhiteSpace (rev rest)"
  have t: "trim s = rev d" by (simp add: trim_def rest_def d_def)
  with assms have dne: "d \<noteq> []" by simp
  then have "\<not> isWhiteSpace (hd d)" unfolding d_def by (rule hd_dropWhile)
  then have l: "\<not> isWhiteSpace (last (trim s))" using t dne by (simp add: last_rev)
  have "rev rest = takeWhile isWhiteSpace (rev rest) @ d" by (simp add: d_def)
  then have "last (rev rest) = last d" using dne by (metis last_appendR)
  moreover have rne: "rest \<noteq> []" using dne d_def by auto
  ultimately have "hd rest = last d" by (simp add: last_rev)
  moreover have "\<not> isWhiteSpace (hd rest)" using rne unfolding rest_def by (rule hd_dropWhile)
  ultimately have "\<not> isWhiteSpace (hd (trim s))" using t dne by (simp add: hd_rev)
  with l show ?thesis by simp
qed

lemma trim_changes:
  assumes "s \<noteq> []" and "isWhiteSpace (hd s) \<or> isWhiteSpace (last s)"
  shows "trim s \<noteq> s"
proof
  assume e: "trim s = s"
  with assms(1) have "trim s \<noteq> []" by simp
  from trim_ends [OF this] e assms(2) show False by simp
qed

lemma trim_keeps:
  assumes "s \<noteq> []" and "\<not> isWhiteSpace (hd s)" and "\<not> isWhiteSpace (last s)"
  shows "trim s = s"
proof -
  from assms(1,2) have a: "dropWhile isWhiteSpace s = s" by (cases s) simp_all
  from assms(1,3) have "dropWhile isWhiteSpace (rev s) = rev s"
    by (cases "rev s") (simp_all add: hd_rev [symmetric])
  with a show ?thesis by (simp add: trim_def)
qed

subsection \<open>Decoding\<close>

lemma utf8Decode_ascii:
  "\<forall>b \<in> set a. b < 128 \<Longrightarrow>
     utf8Decode (0, 0, 0x80, 0xBF) (a @ bs) = a @ utf8Decode (0, 0, 0x80, 0xBF) bs"
  by (induction a) (simp_all add: leadByte_def)

lemma toString_ascii_append:
  assumes "\<forall>b \<in> set a. b < 128"
  shows "toString (a @ bs) = a @ toString bs"
proof -
  have "concat (map utf16 a) = a" using assms
    by (induction a) (simp_all add: utf16_def)
  then show ?thesis
    by (simp add: toString_def utf8Decode_ascii [OF assms])
qed

lemma toString_ascii: "\<forall>b \<in> set a. b < 128 \<Longrightarrow> toString a = a"
  using toString_ascii_append [of a "[]"] by (simp add: toString_def)

subsection \<open>executeInSandbox\<close>

lemma executeInSandbox_Inr:
  assumes "fst (executeInSandbox drv sandboxId command st) = Inr result"
  shows "\<exists>sandbox stream.
           getSandbox st sandboxId = Some sandbox \<and> sb_status sandbox = RUNNING
           \<and> d_execStart drv (calls st @ [ContainerExec (getContainer (sb_containerId sandbox))
                                             command True True]) = Inr stream
           \<and> es_ending stream = StreamEnd
           \<and> stdout result = trim (fst (demux (es_chunks stream)))
           \<and> stderr result = trim (snd (demux (es_chunks stream)))"
  using assms
  by (auto simp: executeInSandbox_def getSandbox_def Let_def sent_def
           split: option.splits if_splits sum.splits StreamEnding.splits)

lemmas demux_eval =
  demux_def onData_def toString_def utf16_def leadByte_def frame_def be32_def bytes_def
  multiplexed_def written_def codeUnits_def

text \<open>A frame with fewer than 128 bytes of payload has a header of eight bytes below 128,
  which decode to eight code units.\<close>

lemma onData_frame:
  assumes "fst w = 1 \<or> fst w = 2" and "length (snd w) < 128"
  shows "onData acc (frame w) =
       (if fst w = 1 then (fst acc @ toString (snd w), snd acc)
        else (fst acc, snd acc @ toString (snd w)))"
proof -
  define header where "header = [fst w, 0, 0, 0, 0, 0, 0, length (snd w)]"
  have f: "frame w = header @ snd w"
    using assms(2) by (simp add: frame_def be32_def header_def)
  have "\<forall>b \<in> set header. b < 128"
    using assms by (auto simp: header_def)
  then have "toString (frame w) = header @ toString (snd w)"
    unfolding f by (rule toString_ascii_append)
  then have d: "drop 8 (toString (frame w)) = toString (snd w)"
    by (simp add: header_def)
  have o: "onData acc (frame w) =
       (if fst w = 1 then (fst acc @ drop 8 (toString (frame w)), snd acc)
        else if fst w = 2 then (fst acc, snd acc @ drop 8 (toString (frame w)))
        else acc)"
    by (simp add: onData_def frame_def)
  show ?thesis
    using assms(1) unfolding o d by auto
qed

text \<open>When every chunk is exactly one frame with fewer than 128 bytes of payload, all of them
  below 128, the decoder rebuilds both streams.\<close>

lemma foldl_onData_frames:
  "\<forall>w \<in> set writes. (fst w = 1 \<or> fst w = 2) \<and> length (snd w) < 128 \<and> (\<forall>b \<in> set (snd w). b < 128) \<Longrightarrow>
     foldl onData acc (map frame writes) =
       (fst acc @ concat (map snd (filter (\<lambda>w. fst w = 1) writes)),
        snd acc @ concat (map snd (filter (\<lambda>w. fst w = 2) writes)))"
proof (induction writes arbitrary: acc)
  case Nil
  show ?case by simp
next
  case (Cons w writes)
  from Cons.prems have w: "fst w = 1 \<or> fst w = 2" and len: "length (snd w) < 128"
    and asc: "\<forall>b \<in> set (snd w). b < 128"
    and rest: "\<forall>w \<in> set writes. (fst w = 1 \<or> fst w = 2) \<and> length (snd w) < 128
                  \<and> (\<forall>b \<in> set (snd w). b < 128)"
    by simp_all
  show ?case
    using w by (auto simp: onData_frame [OF w len] Cons.IH [OF rest] toString_ascii [OF asc])
qed

lemma demux_aligned:
  assumes "\<forall>w \<in> set writes. (fst w = 1 \<or> fst w = 2) \<and> length (snd w) < 128
              \<and> (\<forall>b \<in> set (snd w). b < 128)"
  shows "demux (map frame writes) = (written 1 writes, written 2 writes)"
proof -
  have "\<forall>b \<in> set (concat (map snd (filter (\<lambda>w. fst w = t) writes))). b < 128" for t
    using assms by auto
  then have "written t writes = concat (map snd (filter (\<lambda>w. fst w = t) writes))" for t
    unfolding written_def by (rule toString_ascii)
  then show ?thesis
    by (simp add: demux_def foldl_onData_frames [OF assms])
qed

lemma echoStream_demux:
  "demux (es_chunks echoStream)
     = (codeUnits (''STDOUT'' @ [CHR 0x0A]), codeUnits (''STDERR'' @ [CHR 0x0A]))"
  by (simp add: echoStream_def echoWrites_def demux_eval)

lemma cafeStream_demux:
  "demux (es_chunks cafeStream) = ([0xFEFF, 0x20, 0x63, 0x61, 0x66, 0xE9, 0x3000, 0x0A], [])"
  by (simp add: cafeStream_def demux_eval)

text \<open>
  C8. When \<open>executeInSandbox\<close> returns a result, its \<open>stdout\<close> and \<open>stderr\<close> are \<open>trim\<close> of
  the two accumulated strings of the decoder. \<open>trim\<close> removes a run of white space at each end
  and nothing else; what it returns neither starts nor ends with white space, so a trailing
  newline is never left, and a string that starts or ends with white space is changed by it.
\<close>

theorem executeInSandbox_returns_trimmed:
  "(fst (executeInSandbox drv sandboxId command st) = Inr result \<longrightarrow>
      (\<exists>sandbox stream.
         getSandbox st sandboxId = Some sandbox
         \<and> d_execStart drv (calls st @ [ContainerExec (getContainer (sb_containerId sandbox))
                                           command True True]) = Inr stream
         \<and> stdout result = trim (fst (demux (es_chunks stream)))
         \<and> stderr result = trim (snd (demux (es_chunks stream)))))
   \<and> (\<exists>pre suf. out = pre @ trim out @ suf
         \<and> set pre \<subseteq> set whiteSpaceUnits \<and> set suf \<subseteq> set whiteSpaceUnits)
   \<and> (trim out \<noteq> [] \<longrightarrow>
         hd (trim out) \<notin> set whiteSpaceUnits \<and> last (trim out) \<notin> set whiteSpaceUnits)
   \<and> (out \<noteq> [] \<and> (hd out \<in> set whiteSpaceUnits \<or> last out \<in> set whiteSpaceUnits)
         \<longrightarrow> trim out \<noteq> out)
   \<and> trim (out @ [0x0A]) \<noteq> out @ [0x0A]"
proof (intro conjI impI)
  assume "fst (executeInSandbox drv sandboxId command st) = Inr result"
  from executeInSandbox_Inr [OF this]
  show "\<exists>sandbox stream.
         getSandbox st sandboxId = Some sandbox
         \<and> d_execStart drv (calls st @ [ContainerExec (getContainer (sb_containerId sandbox))
                                           command True True]) = Inr stream
         \<and> stdout result = trim (fst (demux (es_chunks stream)))
         \<and> stderr result = trim (snd (demux (es_chunks stream)))"
    by blast
next
  from trim_decompose [of out]
  show "\<exists>pre suf. out = pre @ trim out @ suf
         \<and> set pre \<subseteq> set whiteSpaceUnits \<and> set suf \<subseteq> set whiteSpaceUnits"
    by (auto simp: list_all_iff isWhiteSpace_iff)
next
  assume "trim out \<noteq> []"
  from trim_ends [OF this]
  show "hd (trim out) \<notin> set whiteSpaceUnits" and "last (trim out) \<notin> set whiteSpaceUnits"
    by (simp_all add: isWhiteSpace_iff)
next
  assume "out \<noteq> [] \<and> (hd out \<in> set whiteSpaceUnits \<or> last out \<in> set whiteSpaceUnits)"
  then show "trim out \<noteq> out" using trim_changes [of out] by (simp add: isWhiteSpace_iff)
next
  have "isWhiteSpace (last (out @ [0x0A]))" by (simp add: isWhiteSpace_def)
  then show "trim (out @ [0x0A]) \<noteq> out @ [0x0A]"
    using trim_changes [of "out @ [0x0A]"] by simp
qed

theorem executeInSandbox_returns_trimmed_witness:
  "fst (executeInSandbox (engine (Inr ''c1'') echoStream) ''sb_1''
          [''sh'', ''-c'', ''echo STDOUT && >&2 echo STDERR''] runningManager)
     = Inr \<lparr> stdout = codeUnits ''STDOUT'', stderr = codeUnits ''STDERR'', exitCode = 0 \<rparr>
   \<and> fst (demux (es_chunks echoStream)) = codeUnits (''STDOUT'' @ [CHR 0x0A])
   \<and> trim (codeUnits (''STDOUT'' @ [CHR 0x0A])) \<noteq> codeUnits (''STDOUT'' @ [CHR 0x0A])
   \<and> fst (executeInSandbox (engine (Inr ''c1'') cafeStream) ''sb_1'' [''cat'', ''menu'']
            runningManager)
     = Inr \<lparr> stdout = [0x63, 0x61, 0x66, 0xE9], stderr = [], exitCode = 0 \<rparr>
   \<and> fst (demux (es_chunks cafeStream)) = [0xFEFF, 0x20, 0x63, 0x61, 0x66, 0xE9, 0x3000, 0x0A]
   \<and> (\<exists>sandbox stream.
         getSandbox runningManager ''sb_1'' = Some sandbox
         \<and> d_execStart (engine (Inr ''c1'') cafeStream)
              (calls runningManager @ [ContainerExec (getContainer (sb_containerId sandbox))
                 [''cat'', ''menu''] True True]) = Inr stream
         \<and> [0x63, 0x61, 0x66, 0xE9] = trim (fst (demux (es_chunks stream)))
         \<and> [] = trim (snd (demux (es_chunks stream))))"
proof -
  have r: "fst (executeInSandbox (engine (Inr ''c1'') echoStream) ''sb_1''
          [''sh'', ''-c'', ''echo STDOUT && >&2 echo STDERR''] runningManager)
     = Inr \<lparr> stdout = codeUnits ''STDOUT'', stderr = codeUnits ''STDERR'', exitCode = 0 \<rparr>"
    by (simp add: executeInSandbox_def runningManager_eq engine_def Let_def sent_def
          getContainer_def echoStream_def echoWrites_def demux_eval trim_def isWhiteSpace_def
          isSpaceSeparator_def)
  have c: "fst (executeInSandbox (engine (Inr ''c1'') cafeStream) ''sb_1'' [''cat'', ''menu'']
            runningManager)
     = Inr \<lparr> stdout = [0x63, 0x61, 0x66, 0xE9], stderr = [], exitCode = 0 \<rparr>"
    by (simp add: executeInSandbox_def runningManager_eq engine_def Let_def sent_def
          getContainer_def cafeStream_def demux_eval trim_def isWhiteSpace_def
          isSpaceSeparator_def)
  have n: "codeUnits (''STDOUT'' @ [CHR 0x0A]) = codeUnits ''STDOUT'' @ [0x0A]"
    by (simp add: codeUnits_def)
  from executeInSandbox_returns_trimmed
    [of "engine (Inr ''c1'') cafeStream" "''sb_1''" "[''cat'', ''menu'']"
        runningManager "\<lparr> stdout = [0x63, 0x61, 0x66, 0xE9], stderr = [], exitCode = 0 \<rparr>"
        "codeUnits ''STDOUT''"]
  show ?thesis using r c n echoStream_demux cafeStream_demux by simp
qed

text \<open>
  C1. The claim asks for a decoder that rebuilds both streams for arbitrary chunk boundaries,
  on a container allocated without a terminal. \<open>createSandbox\<close> allocates with \<open>Tty: true\<close>,
  and the \<open>data\<close> handler treats every chunk as one frame. With the two frames of the echo
  command in one chunk, standard error and its header end up in \<open>stdout\<close> and \<open>stderr\<close> is
  empty; with one frame cut after its tenth byte, the second chunk is dropped.
\<close>

theorem demux_misaligned_chunks:
  "co_Tty (createOptions ''sb_1'' (defaultConfig noConfig) (Num 536870912)) = True
   \<and> (written 1 echoWrites, written 2 echoWrites)
        = (codeUnits (''STDOUT'' @ [CHR 0x0A]), codeUnits (''STDERR'' @ [CHR 0x0A]))
   \<and> demux [multiplexed echoWrites]
        = (codeUnits (''STDOUT'' @ [CHR 0x0A, CHR 0x02, CHR 0x00, CHR 0x00, CHR 0x00, CHR 0x00,
                                    CHR 0x00, CHR 0x00, CHR 0x07] @ ''STDERR'' @ [CHR 0x0A]), [])
   \<and> fst (executeInSandbox
            (engine (Inr ''c1'') \<lparr> es_chunks = [multiplexed echoWrites], es_ending = StreamEnd \<rparr>)
            ''sb_1'' [''sh'', ''-c'', ''echo STDOUT && >&2 echo STDERR''] runningManager)
        = Inr \<lparr> stdout = codeUnits (''STDOUT'' @ [CHR 0x0A, CHR 0x02, CHR 0x00, CHR 0x00, CHR 0x00,
                                                   CHR 0x00, CHR 0x00, CHR 0x00, CHR 0x07] @ ''STDERR''),
                stderr = [], exitCode = 0 \<rparr>
   \<and> written 1 [(1, bytes ''hello'')] = codeUnits ''hello''
   \<and> demux [take 10 (multiplexed [(1, bytes ''hello'')]), drop 10 (multiplexed [(1, bytes ''hello'')])]
        = (codeUnits ''he'', [])"
proof -
  have a: "co_Tty (createOptions ''sb_1'' (defaultConfig noConfig) (Num 536870912)) = True"
    by (simp add: createOptions_def)
  have b: "(written 1 echoWrites, written 2 echoWrites)
             = (codeUnits (''STDOUT'' @ [CHR 0x0A]), codeUnits (''STDERR'' @ [CHR 0x0A]))"
    by (simp add: echoWrites_def demux_eval)
  have c: "demux [multiplexed echoWrites]
        = (codeUnits (''STDOUT'' @ [CHR 0x0A, CHR 0x02, CHR 0x00, CHR 0x00, CHR 0x00, CHR 0x00,
                                    CHR 0x00, CHR 0x00, CHR 0x07] @ ''STDERR'' @ [CHR 0x0A]), [])"
    by (simp add: echoWrites_def demux_eval)
  have d: "fst (executeInSandbox
            (engine (Inr ''c1'') \<lparr> es_chunks = [multiplexed echoWrites], es_ending = StreamEnd \<rparr>)
            ''sb_1'' [''sh'', ''-c'', ''echo STDOUT && >&2 echo STDERR''] runningManager)
        = Inr \<lparr> stdout = codeUnits (''STDOUT'' @ [CHR 0x0A, CHR 0x02, CHR 0x00, CHR 0x00, CHR 0x00,
                                                   CHR 0x00, CHR 0x00, CHR 0x00, CHR 0x07] @ ''STDERR''),
                stderr = [], exitCode = 0 \<rparr>"
    by (simp add: executeInSandbox_def runningManager_eq engine_def Let_def sent_def
          getContainer_def echoWrites_def demux_eval trim_def isWhiteSpace_def isSpaceSeparator_def)
  have e: "written 1 [(1, bytes ''hello'')] = codeUnits ''hello''"
    by (simp add: demux_eval)
  have f: "demux [take 10 (multiplexed [(1, bytes ''hello'')]), drop 10 (multiplexed [(1, bytes ''hello'')])]
        = (codeUnits ''he'', [])"
    by (simp add: demux_eval)
  show ?thesis using a b c d e f by blast
qed

subsection \<open>The timer and the scheduler\<close>








subsection \<open>The browser registry\<close>

lemma getManagedContext_Inr:
  "getManagedContext st contextId = Inr mc \<longleftrightarrow>
     (mapGet (contexts st) contextId = Some mc \<and> mc_status mc = Active)"
  by (auto simp: getManagedContext_def split: option.splits)

lemma pageCalls_touch [simp]: "pageCalls (touch contextId st) = pageCalls st"
  by (simp add: touch_def split: option.splits)

lemma mapSet_same_pages:
  "mapGet m k = Some mc \<Longrightarrow> mc_pages mc' = mc_pages mc \<Longrightarrow>
     map (\<lambda>(i, c). (i, mc_pages c)) (mapSet m k mc') = map (\<lambda>(i, c). (i, mc_pages c)) m"
  by (induction m) (auto split: if_splits)

lemma pageMaps_touch [simp]: "pageMaps (touch contextId st) = pageMaps st"
  by (simp add: touch_def pageMaps_def mapSet_same_pages split: option.splits)

lemma pageMaps_asked [simp]: "pageMaps (asked c st) = pageMaps st"
  by (simp add: asked_def pageMaps_def)

lemma contexts_asked [simp]: "contexts (asked c st) = contexts st"
  by (simp add: asked_def)

lemma now_asked [simp]: "now (asked c st) = now st"
  by (simp add: asked_def)

lemma pageCalls_asked [simp]: "pageCalls (asked c st) = pageCalls st @ [c]"
  by (simp add: asked_def)

lemma contexts_touch:
  "getManagedContext st contextId = Inr mc \<Longrightarrow>
     contexts (touch contextId st) = mapSet (contexts st) contextId (mc\<lparr>mc_lastAccessedAt := now st\<rparr>)"
  by (simp add: getManagedContext_Inr touch_def)

lemma getManagedContext_asked [simp]:
  "getManagedContext (asked c st) contextId = getManagedContext st contextId"
  by (simp add: getManagedContext_def)

subsection \<open>navigate, stage by stage\<close>

lemma navigate_newPage_rejected:
  assumes "getManagedContext st contextId = Inr mc"
    and "p_newPage drv (pageCalls st) (mc_context mc) = Inl msg"
  shows "navigate drv contextId url options pageId st =
           (Inl (navigateFailed url msg), asked (NewPage (mc_context mc)) st)"
  using assms by (simp add: navigate_def Let_def)

lemma navigate_headers_rejected:
  assumes "getManagedContext st contextId = Inr mc"
    and "p_newPage drv (pageCalls st) (mc_context mc) = Inr page"
    and "no_referer options = Some referer" and "referer \<noteq> []"
    and "p_setExtraHTTPHeaders drv (pageCalls st @ [NewPage (mc_context mc)]) page referer = Some msg"
  shows "navigate drv contextId url options pageId st =
           (Inl (navigateFailed url msg),
            asked (SetExtraHTTPHeaders page referer) (asked (NewPage (mc_context mc)) st))"
  using assms by (simp add: navigate_def Let_def)

text \<open>The requests sent before \<open>goto\<close>, and the state in which \<open>goto\<close> is sent.\<close>

lemma navigate_goto:
  assumes "getManagedContext st contextId = Inr mc"
    and "p_newPage drv (pageCalls st) (mc_context mc) = Inr page"
    and "referer = (case no_referer options of None \<Rightarrow> [] | Some r \<Rightarrow> r)"
    and "referer \<noteq> [] \<longrightarrow>
           p_setExtraHTTPHeaders drv (pageCalls st @ [NewPage (mc_context mc)]) page referer = None"
    and "st2 = (if referer \<noteq> [] then asked (SetExtraHTTPHeaders page referer)
                                        (asked (NewPage (mc_context mc)) st)
                else asked (NewPage (mc_context mc)) st)"
    and "waitUntil = (case no_waitUntil options of None \<Rightarrow> Load | Some w \<Rightarrow> w)"
    and "st4 = asked (Goto page url waitUntil (navigationTimeout options mc)) (touch contextId st2)"
  shows "navigate drv contextId url options pageId st =
           (case p_goto drv (pageCalls st2) page url waitUntil (navigationTimeout options mc) of
              Some msg \<Rightarrow> (Inl (navigateFailed url msg), st4)
            | None \<Rightarrow>
                (Inr pageId,
                 st4\<lparr>contexts := mapSet (contexts st4) contextId
                        (mc\<lparr>mc_lastAccessedAt := now st,
                            mc_pages := mapSet (mc_pages mc) pageId page\<rparr>)\<rparr>))"
proof -
  have c: "mapGet (contexts (touch contextId s)) contextId = Some (mc\<lparr>mc_lastAccessedAt := now s\<rparr>)"
    if "getManagedContext s contextId = Inr mc" for s
    using contexts_touch [OF that] by (simp add: mapGet_mapSet)
  show ?thesis
  proof (cases "referer = []")
    case True
    then have r: "(case no_referer options of None \<Rightarrow> [] | Some r \<Rightarrow> r) = []"
      using assms(3) by simp
    show ?thesis
      using assms(1,2) True
      by (simp add: navigate_def Let_def r assms(5,6,7) c split: option.splits)
  next
    case False
    then have r: "(case no_referer options of None \<Rightarrow> [] | Some r \<Rightarrow> r) = referer"
      using assms(3) by simp
    show ?thesis
      using assms(1,2,4) False
      by (simp add: navigate_def Let_def r assms(5,6,7) c split: option.splits)
  qed
qed

lemma navigate_inactive:
  "getManagedContext st contextId = Inl e \<Longrightarrow>
     navigate drv contextId url options pageId st = (Inl e, st)"
  by (simp add: navigate_def)

lemma getManagedContext_touched:
  "getManagedContext st contextId = Inr mc \<Longrightarrow>
     getManagedContext (touch contextId st) contextId = Inr (mc\<lparr>mc_lastAccessedAt := now st\<rparr>)"
  using contexts_touch [of st contextId mc]
  by (simp add: getManagedContext_Inr mapGet_mapSet)

lemma navigate_thrown:
  assumes "getManagedContext st contextId = Inr mc"
    and "fst (navigate drv contextId url options pageId st) = Inl e"
  shows "pageMaps (snd (navigate drv contextId url options pageId st)) = pageMaps st
    \<and> (\<exists>mc'. getManagedContext (snd (navigate drv contextId url options pageId st)) contextId = Inr mc'
           \<and> mc_pages mc' = mc_pages mc)"
proof (cases "p_newPage drv (pageCalls st) (mc_context mc)")
  case (Inl msg)
  show ?thesis
    unfolding navigate_newPage_rejected [OF assms(1) Inl] using assms(1) by simp
next
  case (Inr page)
  define referer where "referer = (case no_referer options of None \<Rightarrow> [] | Some r \<Rightarrow> r)"
  define st2 where "st2 = (if referer \<noteq> [] then asked (SetExtraHTTPHeaders page referer)
                                        (asked (NewPage (mc_context mc)) st)
                else asked (NewPage (mc_context mc)) st)"
  define waitUntil where "waitUntil = (case no_waitUntil options of None \<Rightarrow> Load | Some w \<Rightarrow> w)"
  define st4 where "st4 = asked (Goto page url waitUntil (navigationTimeout options mc)) (touch contextId st2)"
  have g2: "getManagedContext st2 contextId = Inr mc" and p2: "pageMaps st2 = pageMaps st"
    using assms(1) by (simp_all add: st2_def)
  have g4: "getManagedContext st4 contextId = Inr (mc\<lparr>mc_lastAccessedAt := now st2\<rparr>)"
    and p4: "pageMaps st4 = pageMaps st"
    using getManagedContext_touched [OF g2] p2 by (simp_all add: st4_def)
  show ?thesis
  proof (cases "referer \<noteq> [] \<and>
      p_setExtraHTTPHeaders drv (pageCalls st @ [NewPage (mc_context mc)]) page referer \<noteq> None")
    case True
    then obtain msg where
      h: "p_setExtraHTTPHeaders drv (pageCalls st @ [NewPage (mc_context mc)]) page referer = Some msg"
      and ne: "referer \<noteq> []"
      by auto
    from ne have r: "no_referer options = Some referer"
      by (cases "no_referer options") (simp_all add: referer_def)
    show ?thesis
      unfolding navigate_headers_rejected [OF assms(1) Inr r ne h] using assms(1) by simp
  next
    case False
    then have ok: "referer \<noteq> [] \<longrightarrow>
           p_setExtraHTTPHeaders drv (pageCalls st @ [NewPage (mc_context mc)]) page referer = None"
      by blast
    note n = navigate_goto [OF assms(1) Inr referer_def ok st2_def waitUntil_def st4_def, of pageId]
    show ?thesis
    proof (cases "p_goto drv (pageCalls st2) page url waitUntil (navigationTimeout options mc)")
      case None
      with n assms(2) show ?thesis by simp
    next
      case (Some msg)
      with n g4 p4 show ?thesis by simp
    qed
  qed
qed

lemma navigate_returned:
  assumes "getManagedContext st contextId = Inr mc"
    and "navigate drv contextId url options pageId st = (Inr r, st')"
  shows "\<exists>page. p_newPage drv (pageCalls st) (mc_context mc) = Inr page
           \<and> r = pageId
           \<and> getManagedContext st' contextId
                = Inr (mc\<lparr>mc_lastAccessedAt := now st, mc_pages := mapSet (mc_pages mc) pageId page\<rparr>)"
proof (cases "p_newPage drv (pageCalls st) (mc_context mc)")
  case (Inl msg)
  with navigate_newPage_rejected [OF assms(1) Inl, of url options pageId] assms(2)
  show ?thesis by simp
next
  case (Inr page)
  define referer where "referer = (case no_referer options of None \<Rightarrow> [] | Some r \<Rightarrow> r)"
  define st2 where "st2 = (if referer \<noteq> [] then asked (SetExtraHTTPHeaders page referer)
                                        (asked (NewPage (mc_context mc)) st)
                else asked (NewPage (mc_context mc)) st)"
  define waitUntil where "waitUntil = (case no_waitUntil options of None \<Rightarrow> Load | Some w \<Rightarrow> w)"
  define st4 where "st4 = asked (Goto page url waitUntil (navigationTimeout options mc)) (touch contextId st2)"
  show ?thesis
  proof (cases "referer \<noteq> [] \<and>
      p_setExtraHTTPHeaders drv (pageCalls st @ [NewPage (mc_context mc)]) page referer \<noteq> None")
    case True
    then obtain msg where
      h: "p_setExtraHTTPHeaders drv (pageCalls st @ [NewPage (mc_context mc)]) page referer = Some msg"
      and ne: "referer \<noteq> []"
      by auto
    from ne have r: "no_referer options = Some referer"
      by (cases "no_referer options") (simp_all add: referer_def)
    from navigate_headers_rejected [OF assms(1) Inr r ne h, of url pageId] assms(2)
    show ?thesis by simp
  next
    case False
    then have ok: "referer \<noteq> [] \<longrightarrow>
           p_setExtraHTTPHeaders drv (pageCalls st @ [NewPage (mc_context mc)]) page referer = None"
      by blast
    note n = navigate_goto [OF assms(1) Inr referer_def ok st2_def waitUntil_def st4_def, of pageId]
    show ?thesis
    proof (cases "p_goto drv (pageCalls st2) page url waitUntil (navigationTimeout options mc)")
      case (Some msg)
      with n assms(2) show ?thesis by simp
    next
      case None
      with n assms(2) have r: "r = pageId"
        and st': "st' = st4\<lparr>contexts := mapSet (contexts st4) contextId
                        (mc\<lparr>mc_lastAccessedAt := now st,
                            mc_pages := mapSet (mc_pages mc) pageId page\<rparr>)\<rparr>"
        by simp_all
      have "getManagedContext st' contextId
                = Inr (mc\<lparr>mc_lastAccessedAt := now st, mc_pages := mapSet (mc_pages mc) pageId page\<rparr>)"
        using assms(1) by (simp add: st' getManagedContext_Inr mapGet_mapSet)
      with Inr r show ?thesis by simp
    qed
  qed
qed

subsection \<open>The default page\<close>

lemma getPage_default:
  assumes "getManagedContext st contextId = Inr mc"
  shows "getPage st contextId None =
           (if mc_pages mc = []
            then Inl \<lparr> be_message = ''No pages found in context: '' @ contextId,
                       be_code = PAGE_NOT_FOUND, be_originalError = None \<rparr>
            else Inr (snd (last (mc_pages mc))))"
  using assms
  by (simp add: getPage_def noPageId_def mapValues_def Let_def last_conv_nth last_map)

lemma getPageContent_on:
  assumes "getManagedContext st contextId = Inr mc" and "getPage st contextId pageId = Inr page"
  shows "pageCalls (snd (getPageContent drv contextId pageId st)) = pageCalls st @ [Content page]
    \<and> fst (getPageContent drv contextId pageId st) =
        (case p_content drv (pageCalls st) page of
           Inl msg \<Rightarrow> Inl \<lparr> be_message = ''Failed to get page content'',
                             be_code = PAGE_NOT_FOUND, be_originalError = Some msg \<rparr>
         | Inr content \<Rightarrow> Inr content)"
  using assms by (simp add: getPageContent_def Let_def split: sum.splits)

lemmas browser_eval =
  navigate_def getManagedContext_def getPage_def getPageContent_def executeJavaScript_def
  noPageId_def mapValues_def mapKeys_def navigationTimeout_def navigateFailed_def
  asked_def touch_def browser_def noOptions_def oneContext_def Let_def

lemma onePage_eq:
  "onePage =
     \<lparr> contexts = [(''ctx_1'',
          \<lparr> mc_id = ''ctx_1'', mc_browserType = ''chromium'', mc_context = 0,
            mc_pages = [(''page_1'', 1)],
            mc_createdAt = 0, mc_lastAccessedAt = 0, mc_config_timeout = None,
            mc_status = Active \<rparr>)],
       pageCalls = [NewPage 0, Goto 1 ''https://a.example'' Load 30000], now = 0 \<rparr>"
  by (simp add: onePage_def browser_eval)

lemma twoPages_eq:
  "navigate (browser []) ''ctx_1'' ''https://b.example'' noOptions ''page_2'' onePage =
     (Inr ''page_2'',
      \<lparr> contexts = [(''ctx_1'',
          \<lparr> mc_id = ''ctx_1'', mc_browserType = ''chromium'', mc_context = 0,
            mc_pages = [(''page_1'', 1), (''page_2'', 3)],
            mc_createdAt = 0, mc_lastAccessedAt = 0, mc_config_timeout = None,
            mc_status = Active \<rparr>)],
       pageCalls = [NewPage 0, Goto 1 ''https://a.example'' Load 30000,
                    NewPage 0, Goto 3 ''https://b.example'' Load 30000], now = 0 \<rparr>)"
  by (simp add: onePage_eq browser_eval)

text \<open>
  C5. On an active context, \<open>getPageContent\<close> without a page id throws \<open>PAGE_NOT_FOUND\<close>
  (\<open>No pages found in context\<close>) when the context has no page, and otherwise asks the engine
  for the content of the last page of the page map in insertion order. A navigation that
  returns, under a page id not yet in the map (\<open>generatePageId\<close> is taken to return new ids),
  puts the page the engine just created at the end of the map, so that page, the most recently
  created one, is the default from then on.
\<close>

theorem getPageContent_default_latest_page:
  assumes "getManagedContext st contextId = Inr mc"
  shows "(mc_pages mc = [] \<longrightarrow>
            getPageContent drv contextId None st
              = (Inl \<lparr> be_message = ''No pages found in context: '' @ contextId,
                        be_code = PAGE_NOT_FOUND, be_originalError = None \<rparr>, st))
    \<and> (mc_pages mc \<noteq> [] \<longrightarrow>
            getPage st contextId None = Inr (snd (last (mc_pages mc)))
            \<and> pageCalls (snd (getPageContent drv contextId None st))
                = pageCalls st @ [Content (snd (last (mc_pages mc)))])
    \<and> (navigate drv contextId url options pageId st = (Inr r, st')
          \<and> pageId \<notin> set (mapKeys (mc_pages mc)) \<longrightarrow>
            (\<exists>page mc'.
               p_newPage drv (pageCalls st) (mc_context mc) = Inr page
               \<and> getManagedContext st' contextId = Inr mc'
               \<and> mc_pages mc' = mc_pages mc @ [(pageId, page)]
               \<and> getPage st' contextId None = Inr page
               \<and> pageCalls (snd (getPageContent drv contextId None st'))
                   = pageCalls st' @ [Content page]))"
proof (intro conjI impI)
  assume "mc_pages mc = []"
  then show "getPageContent drv contextId None st
              = (Inl \<lparr> be_message = ''No pages found in context: '' @ contextId,
                        be_code = PAGE_NOT_FOUND, be_originalError = None \<rparr>, st)"
    by (simp add: getPageContent_def getPage_default [OF assms])
next
  assume ne: "mc_pages mc \<noteq> []"
  then show p: "getPage st contextId None = Inr (snd (last (mc_pages mc)))"
    by (simp add: getPage_default [OF assms])
  from getPageContent_on [OF assms p]
  show "pageCalls (snd (getPageContent drv contextId None st))
                = pageCalls st @ [Content (snd (last (mc_pages mc)))]"
    by simp
next
  assume a: "navigate drv contextId url options pageId st = (Inr r, st')
          \<and> pageId \<notin> set (mapKeys (mc_pages mc))"
  then have nav: "navigate drv contextId url options pageId st = (Inr r, st')"
    and fresh: "pageId \<notin> set (mapKeys (mc_pages mc))"
    by simp_all
  from navigate_returned [OF assms nav] obtain page where
    np: "p_newPage drv (pageCalls st) (mc_context mc) = Inr page"
    and g: "getManagedContext st' contextId
                = Inr (mc\<lparr>mc_lastAccessedAt := now st, mc_pages := mapSet (mc_pages mc) pageId page\<rparr>)"
    by blast
  define mc' where "mc' = mc\<lparr>mc_lastAccessedAt := now st, mc_pages := mapSet (mc_pages mc) pageId page\<rparr>"
  have pages: "mc_pages mc' = mc_pages mc @ [(pageId, page)]"
    by (simp add: mc'_def mapSet_fresh [OF fresh])
  have g': "getManagedContext st' contextId = Inr mc'" using g by (simp add: mc'_def)
  have p: "getPage st' contextId None = Inr page"
    by (simp add: getPage_default [OF g'] pages)
  from getPageContent_on [OF g' p]
  have "pageCalls (snd (getPageContent drv contextId None st')) = pageCalls st' @ [Content page]"
    by simp
  with np g' pages p
  show "\<exists>page mc'.
               p_newPage drv (pageCalls st) (mc_context mc) = Inr page
               \<and> getManagedContext st' contextId = Inr mc'
               \<and> mc_pages mc' = mc_pages mc @ [(pageId, page)]
               \<and> getPage st' contextId None = Inr page
               \<and> pageCalls (snd (getPageContent drv contextId None st'))
                   = pageCalls st' @ [Content page]"
    by blast
qed

theorem getPageContent_default_latest_page_witness:
  "fst (getPageContent (browser []) ''ctx_1'' None oneContext)
     = Inl \<lparr> be_message = ''No pages found in context: ctx_1'',
             be_code = PAGE_NOT_FOUND, be_originalError = None \<rparr>
   \<and> getPage onePage ''ctx_1'' None = Inr 1
   \<and> getPage twoPages ''ctx_1'' None = Inr 3
   \<and> fst (getPageContent (browser []) ''ctx_1'' None twoPages) = Inr ''page3''
   \<and> pageCalls (snd (getPageContent (browser []) ''ctx_1'' None twoPages))
       = pageCalls twoPages @ [Content 3]"
proof -
  define mc0 where "mc0 =
     \<lparr> mc_id = ''ctx_1'', mc_browserType = ''chromium'', mc_context = 0, mc_pages = [],
       mc_createdAt = 0, mc_lastAccessedAt = 0, mc_config_timeout = None, mc_status = Active \<rparr>"
  define mc1 where "mc1 = mc0\<lparr>mc_pages := [(''page_1'', 1)]\<rparr>"
  have g0: "getManagedContext oneContext ''ctx_1'' = Inr mc0"
    by (simp add: getManagedContext_def oneContext_def mc0_def)
  have g1: "getManagedContext onePage ''ctx_1'' = Inr mc1"
    by (simp add: getManagedContext_def onePage_eq mc0_def mc1_def)
  have p0: "mc_pages mc0 = []" by (simp add: mc0_def)
  have p1: "mc_pages mc1 = [(''page_1'', 1)]" "mc_context mc1 = 0"
    by (simp_all add: mc1_def mc0_def)
  have n: "navigate (browser []) ''ctx_1'' ''https://b.example'' noOptions ''page_2'' onePage
             = (Inr ''page_2'', twoPages)"
    by (simp add: twoPages_def twoPages_eq)
  have np: "p_newPage (browser []) (pageCalls onePage) 0 = Inr 3"
    by (simp add: onePage_eq browser_def)
  have c: "fst (getPageContent (browser []) ''ctx_1'' None twoPages) = Inr ''page3''"
    using twoPages_eq by (simp add: twoPages_def browser_eval char_of_code_iff)
  from getPageContent_default_latest_page
      [OF g0, of "browser []" "''https://a.example''" noOptions "''page_1''" "''page_1''" onePage]
    getPageContent_default_latest_page
      [OF g1, of "browser []" "''https://b.example''" noOptions "''page_2''" "''page_2''" twoPages]
  show ?thesis
    using p0 p1 n np c by (auto simp: mapKeys_def)
qed

text \<open>
  C6. When the call addresses a page of an active context (the default page of a context with
  at least one page, or a page id of its map), \<open>executeJavaScript\<close> never throws: a rejected
  \<open>page.evaluate\<close> comes back as the value \<open>{ success: false, error: <message> }\<close>, an accepted
  one as \<open>{ success: true, result }\<close>.
\<close>

theorem executeJavaScript_failure_is_data:
  assumes "getManagedContext st contextId = Inr mc"
  shows "(mc_pages mc \<noteq> [] \<longrightarrow> getPage st contextId None = Inr (snd (last (mc_pages mc))))
    \<and> (getPage st contextId pageId = Inr page \<longrightarrow>
          (\<exists>res. fst (executeJavaScript drv contextId script pageId st) = Inr res)
          \<and> (\<forall>msg. p_evaluate drv (pageCalls st) page script = Inl msg \<longrightarrow>
                fst (executeJavaScript drv contextId script pageId st)
                  = Inr \<lparr> js_success = False, js_result = None, js_error = Some msg \<rparr>)
          \<and> (\<forall>v. p_evaluate drv (pageCalls st) page script = Inr v \<longrightarrow>
                fst (executeJavaScript drv contextId script pageId st)
                  = Inr \<lparr> js_success = True, js_result = Some v, js_error = None \<rparr>))"
proof (intro conjI impI allI)
  assume "mc_pages mc \<noteq> []"
  then show "getPage st contextId None = Inr (snd (last (mc_pages mc)))"
    by (simp add: getPage_default [OF assms])
next
  assume p: "getPage st contextId pageId = Inr page"
  show "\<exists>res. fst (executeJavaScript drv contextId script pageId st) = Inr res"
    using assms p by (simp add: executeJavaScript_def Let_def split: sum.splits)
next
  fix msg
  assume "getPage st contextId pageId = Inr page"
    and "p_evaluate drv (pageCalls st) page script = Inl msg"
  then show "fst (executeJavaScript drv contextId script pageId st)
                  = Inr \<lparr> js_success = False, js_result = None, js_error = Some msg \<rparr>"
    using assms by (simp add: executeJavaScript_def Let_def)
next
  fix v
  assume "getPage st contextId pageId = Inr page"
    and "p_evaluate drv (pageCalls st) page script = Inr v"
  then show "fst (executeJavaScript drv contextId script pageId st)
                  = Inr \<lparr> js_success = True, js_result = Some v, js_error = None \<rparr>"
    using assms by (simp add: executeJavaScript_def Let_def)
qed

theorem executeJavaScript_failure_is_data_witness:
  "getPage onePage ''ctx_1'' None = Inr 1
   \<and> p_evaluate (browser []) (pageCalls onePage) 1 ''throw'' = Inl ''boom''
   \<and> fst (executeJavaScript (browser []) ''ctx_1'' ''throw'' None onePage)
       = Inr \<lparr> js_success = False, js_result = None, js_error = Some ''boom'' \<rparr>
   \<and> fst (executeJavaScript (browser []) ''ctx_1'' ''1'' (Some ''page_1'') onePage)
       = Inr \<lparr> js_success = True, js_result = Some ''1'', js_error = None \<rparr>"
proof -
  define mc1 where "mc1 =
     \<lparr> mc_id = ''ctx_1'', mc_browserType = ''chromium'', mc_context = 0,
       mc_pages = [(''page_1'', 1)],
       mc_createdAt = 0, mc_lastAccessedAt = 0, mc_config_timeout = None, mc_status = Active \<rparr>"
  have g1: "getManagedContext onePage ''ctx_1'' = Inr mc1"
    by (simp add: getManagedContext_def onePage_eq mc1_def)
  have p1: "mc_pages mc1 = [(''page_1'', 1)]" by (simp add: mc1_def)
  have q: "getPage onePage ''ctx_1'' (Some ''page_1'') = Inr 1"
    by (simp add: getPage_def g1 p1 noPageId_def)
  have e: "p_evaluate (browser []) (pageCalls onePage) 1 ''throw'' = Inl ''boom''"
    "p_evaluate (browser []) (pageCalls onePage) 1 ''1'' = Inr ''1''"
    by (simp_all add: browser_def)
  from executeJavaScript_failure_is_data [OF g1, of None 1 "browser []" "''throw''"]
    executeJavaScript_failure_is_data [OF g1, of "Some ''page_1''" 1 "browser []" "''1''"]
  show ?thesis using p1 q e by simp
qed

text \<open>
  C9. Whenever \<open>navigate\<close> throws, the page maps of all contexts are what they were before the
  call, and on an active context the context is still there with the same page map; no page
  id is returned. It does throw when the engine rejects \<open>newPage\<close>, and when \<open>goto\<close> is
  rejected after \<open>newPage\<close> (and \<open>setExtraHTTPHeaders\<close>, if a referer is given) was accepted;
  the code of the error is \<open>NAVIGATION_TIMEOUT\<close> when the engine's message contains
  \<open>timeout\<close> and \<open>NAVIGATION_FAILED\<close> otherwise.
\<close>

theorem navigate_failure_registers_no_page:
  "(fst (navigate drv contextId url options pageId st) = Inl e \<longrightarrow>
      pageMaps (snd (navigate drv contextId url options pageId st)) = pageMaps st
      \<and> (\<forall>mc. getManagedContext st contextId = Inr mc \<longrightarrow>
            (\<exists>mc'. getManagedContext (snd (navigate drv contextId url options pageId st)) contextId
                      = Inr mc'
                  \<and> mc_pages mc' = mc_pages mc)))
   \<and> (getManagedContext st contextId = Inr mc
        \<and> p_newPage drv (pageCalls st) (mc_context mc) = Inl msg \<longrightarrow>
          fst (navigate drv contextId url options pageId st) = Inl (navigateFailed url msg))
   \<and> (getManagedContext st contextId = Inr mc
        \<and> p_newPage drv (pageCalls st) (mc_context mc) = Inr page
        \<and> referer = (case no_referer options of None \<Rightarrow> [] | Some r \<Rightarrow> r)
        \<and> (referer \<noteq> [] \<longrightarrow>
              p_setExtraHTTPHeaders drv (pageCalls st @ [NewPage (mc_context mc)]) page referer = None)
        \<and> p_goto drv
             (pageCalls st @ NewPage (mc_context mc)
                # (if referer \<noteq> [] then [SetExtraHTTPHeaders page referer] else []))
             page url (case no_waitUntil options of None \<Rightarrow> Load | Some w \<Rightarrow> w)
             (navigationTimeout options mc) = Some msg \<longrightarrow>
          fst (navigate drv contextId url options pageId st) = Inl (navigateFailed url msg))
   \<and> be_code (navigateFailed url msg)
        = (if includesStr (toLowerCase msg) ''timeout'' then NAVIGATION_TIMEOUT
           else NAVIGATION_FAILED)"
proof (intro conjI impI allI)
  assume t: "fst (navigate drv contextId url options pageId st) = Inl e"
  show "pageMaps (snd (navigate drv contextId url options pageId st)) = pageMaps st"
  proof (cases "getManagedContext st contextId")
    case (Inl e')
    then show ?thesis by (simp add: navigate_inactive)
  next
    case (Inr mc)
    from navigate_thrown [OF Inr t] show ?thesis by simp
  qed
next
  fix mc
  assume "fst (navigate drv contextId url options pageId st) = Inl e"
    and "getManagedContext st contextId = Inr mc"
  from navigate_thrown [OF this(2,1)]
  show "\<exists>mc'. getManagedContext (snd (navigate drv contextId url options pageId st)) contextId
                      = Inr mc'
                  \<and> mc_pages mc' = mc_pages mc"
    by simp
next
  assume "getManagedContext st contextId = Inr mc
        \<and> p_newPage drv (pageCalls st) (mc_context mc) = Inl msg"
  then show "fst (navigate drv contextId url options pageId st) = Inl (navigateFailed url msg)"
    by (simp add: navigate_newPage_rejected)
next
  assume a: "getManagedContext st contextId = Inr mc
        \<and> p_newPage drv (pageCalls st) (mc_context mc) = Inr page
        \<and> referer = (case no_referer options of None \<Rightarrow> [] | Some r \<Rightarrow> r)
        \<and> (referer \<noteq> [] \<longrightarrow>
              p_setExtraHTTPHeaders drv (pageCalls st @ [NewPage (mc_context mc)]) page referer = None)
        \<and> p_goto drv
             (pageCalls st @ NewPage (mc_context mc)
                # (if referer \<noteq> [] then [SetExtraHTTPHeaders page referer] else []))
             page url (case no_waitUntil options of None \<Rightarrow> Load | Some w \<Rightarrow> w)
             (navigationTimeout options mc) = Some msg"
  then have g: "getManagedContext st contextId = Inr mc"
    and np: "p_newPage drv (pageCalls st) (mc_context mc) = Inr page"
    and r: "referer = (case no_referer options of None \<Rightarrow> [] | Some r \<Rightarrow> r)"
    and h: "referer \<noteq> [] \<longrightarrow>
              p_setExtraHTTPHeaders drv (pageCalls st @ [NewPage (mc_context mc)]) page referer = None"
    by blast+
  define st2 where "st2 = (if referer \<noteq> [] then asked (SetExtraHTTPHeaders page referer)
                                        (asked (NewPage (mc_context mc)) st)
                else asked (NewPage (mc_context mc)) st)"
  have c2: "pageCalls st2 = pageCalls st @ NewPage (mc_context mc)
                # (if referer \<noteq> [] then [SetExtraHTTPHeaders page referer] else [])"
    by (simp add: st2_def)
  from a have gt: "p_goto drv (pageCalls st2) page url
       (case no_waitUntil options of None \<Rightarrow> Load | Some w \<Rightarrow> w)
       (navigationTimeout options mc) = Some msg"
    unfolding c2 by blast
  show "fst (navigate drv contextId url options pageId st) = Inl (navigateFailed url msg)"
    unfolding navigate_goto [OF g np r h st2_def refl refl] gt by simp
next
  show "be_code (navigateFailed url msg)
        = (if includesStr (toLowerCase msg) ''timeout'' then NAVIGATION_TIMEOUT
           else NAVIGATION_FAILED)"
    by (simp add: navigateFailed_def)
qed

theorem navigate_failure_registers_no_page_witness:
  "fst (navigate (browser [''https://down.example'']) ''ctx_1'' ''https://down.example''
          (noOptions\<lparr>no_timeout := Some 50\<rparr>) ''page_2'' onePage)
     = Inl \<lparr> be_message = ''Failed to navigate to https://down.example'',
             be_code = NAVIGATION_TIMEOUT,
             be_originalError = Some ''page.goto: Timeout 50ms exceeded.'' \<rparr>
   \<and> pageMaps (snd (navigate (browser [''https://down.example'']) ''ctx_1'' ''https://down.example''
          (noOptions\<lparr>no_timeout := Some 50\<rparr>) ''page_2'' onePage))
       = [(''ctx_1'', [(''page_1'', 1)])]"
proof -
  define mc1 where "mc1 =
     \<lparr> mc_id = ''ctx_1'', mc_browserType = ''chromium'', mc_context = 0,
       mc_pages = [(''page_1'', 1)],
       mc_createdAt = 0, mc_lastAccessedAt = 0, mc_config_timeout = None, mc_status = Active \<rparr>"
  define opts where "opts = noOptions\<lparr>no_timeout := Some 50\<rparr>"
  define msg where "msg = ''page.goto: Timeout 50ms exceeded.''"
  have g1: "getManagedContext onePage ''ctx_1'' = Inr mc1"
    by (simp add: getManagedContext_def onePage_eq mc1_def)
  have np: "p_newPage (browser [''https://down.example'']) (pageCalls onePage) (mc_context mc1) = Inr 3"
    by (simp add: onePage_eq browser_def)
  have r: "(case no_referer opts of None \<Rightarrow> [] | Some r \<Rightarrow> r) = []"
    by (simp add: opts_def noOptions_def)
  have gt: "p_goto (browser [''https://down.example''])
             (pageCalls onePage @ NewPage (mc_context mc1) # [])
             3 ''https://down.example'' (case no_waitUntil opts of None \<Rightarrow> Load | Some w \<Rightarrow> w)
             (navigationTimeout opts mc1) = Some msg"
    by (simp add: browser_def msg_def)
  have code: "includesStr (toLowerCase msg) ''timeout''"
    by (simp add: msg_def toLowerCase_def toLowerChar_def char_of_code_iff)
  have pm: "pageMaps onePage = [(''ctx_1'', [(''page_1'', 1)])]"
    by (simp add: pageMaps_def onePage_eq)
  from navigate_failure_registers_no_page
    [of "browser [''https://down.example'']" "''ctx_1''" "''https://down.example''" opts "''page_2''"
        onePage "navigateFailed ''https://down.example'' msg" mc1 msg 3 "[]"]
  have "fst (navigate (browser [''https://down.example'']) ''ctx_1'' ''https://down.example''
               opts ''page_2'' onePage) = Inl (navigateFailed ''https://down.example'' msg)
      \<and> pageMaps (snd (navigate (browser [''https://down.example'']) ''ctx_1''
               ''https://down.example'' opts ''page_2'' onePage)) = pageMaps onePage"
    using g1 np r gt by simp
  then show ?thesis
    unfolding opts_def [symmetric] pm using code
    by (simp add: navigateFailed_def msg_def)
qed

end
